theory Spec2Isabelle
  imports Main "HOL-Library.AList" "HOL-Library.Sublist"
begin

section \<open>MeshCore node synchronisation (sync\_data.py)\<close>

text \<open>
  A shallow embedding of \<^verbatim>\<open>src/MeshCore/nodes/sync_data.py\<close>.
  Python \<^verbatim>\<open>str\<close> is modelled as \<^typ>\<open>string\<close>, Python \<^verbatim>\<open>int\<close> as \<^typ>\<open>int\<close>.
  A Python \<^verbatim>\<open>float\<close> is only carried around and formatted by the program, never
  computed with, so it is a type parameter \<open>'f\<close>.  An exception is a value of type
  \<open>error\<close> on the left of a sum.
\<close>

subsection \<open>Exceptions\<close>

datatype error =
    ValueError string   \<comment> \<open>\<^verbatim>\<open>ValueError\<close> with its message\<close>
  | KeyError int        \<comment> \<open>a dictionary lookup with a key that is absent\<close>
  | TypeError           \<comment> \<open>iterating over a JSON value that is not iterable\<close>
  | JSONDecodeError     \<comment> \<open>raised by \<^verbatim>\<open>json.load\<close>\<close>
  | ValidationError     \<comment> \<open>raised by the pydantic constructor \<^verbatim>\<open>Node(**item)\<close>\<close>

subsection \<open>Strings\<close>

text \<open>
  A character is one of the 256 code points of Latin-1.  \<^verbatim>\<open>str.upper()\<close> replaces each
  of the letters \<^verbatim>\<open>a\<close> to \<^verbatim>\<open>z\<close> and each of the thirty small letters from 0xE0 to 0xFE
  (0xF7, the division sign, is not one) by its capital, and the sharp s (0xDF) by the
  two letters \<^verbatim>\<open>SS\<close>.  The capitals of the micro sign (0xB5) and of the y with diaeresis
  (0xFF) lie outside Latin-1; the model keeps these two characters, which no
  character is mapped to, so that two upper-cased strings are equal in the model
  exactly when they are in Python.  Every other character is kept.
\<close>

definition lower_letters :: string where
  "lower_letters = ''abcdefghijklmnopqrstuvwxyz'' @
     [CHR 0xE0, CHR 0xE1, CHR 0xE2, CHR 0xE3, CHR 0xE4, CHR 0xE5, CHR 0xE6, CHR 0xE7,
      CHR 0xE8, CHR 0xE9, CHR 0xEA, CHR 0xEB, CHR 0xEC, CHR 0xED, CHR 0xEE, CHR 0xEF,
      CHR 0xF0, CHR 0xF1, CHR 0xF2, CHR 0xF3, CHR 0xF4, CHR 0xF5, CHR 0xF6,
      CHR 0xF8, CHR 0xF9, CHR 0xFA, CHR 0xFB, CHR 0xFC, CHR 0xFD, CHR 0xFE]"

definition upper_letters :: string where
  "upper_letters = ''ABCDEFGHIJKLMNOPQRSTUVWXYZ'' @
     [CHR 0xC0, CHR 0xC1, CHR 0xC2, CHR 0xC3, CHR 0xC4, CHR 0xC5, CHR 0xC6, CHR 0xC7,
      CHR 0xC8, CHR 0xC9, CHR 0xCA, CHR 0xCB, CHR 0xCC, CHR 0xCD, CHR 0xCE, CHR 0xCF,
      CHR 0xD0, CHR 0xD1, CHR 0xD2, CHR 0xD3, CHR 0xD4, CHR 0xD5, CHR 0xD6,
      CHR 0xD8, CHR 0xD9, CHR 0xDA, CHR 0xDB, CHR 0xDC, CHR 0xDD, CHR 0xDE]"

definition upper_char :: "char \<Rightarrow> string" where
  "upper_char c =
     (if c = CHR 0xDF then ''SS''
      else case map_of (zip lower_letters upper_letters) c of
             None \<Rightarrow> [c]
           | Some u \<Rightarrow> [u])"

definition upper :: "string \<Rightarrow> string" where
  "upper s = concat (map upper_char s)"

text \<open>
  \<^verbatim>\<open>str.isdigit()\<close> holds of a non-empty string of digits; besides \<^verbatim>\<open>0\<close> to \<^verbatim>\<open>9\<close> the
  superscripts two, three and one (0xB2, 0xB3, 0xB9) are digits.
\<close>

definition is_decimal :: "char \<Rightarrow> bool" where
  "is_decimal c = (c \<in> set ''0123456789'')"

definition is_digit :: "char \<Rightarrow> bool" where
  "is_digit c = (is_decimal c \<or> c \<in> set [CHR 0xB2, CHR 0xB3, CHR 0xB9])"

definition isdigit :: "string \<Rightarrow> bool" where
  "isdigit s = (s \<noteq> [] \<and> list_all is_digit s)"

definition digit_value :: "char \<Rightarrow> int" where
  "digit_value c = int (length (takeWhile (\<lambda>d. d \<noteq> c) ''0123456789''))"

definition int_of_str :: "string \<Rightarrow> int" where
  "int_of_str s = foldl (\<lambda>acc c. acc * 10 + digit_value c) 0 s"

text \<open>
  \<^verbatim>\<open>int(s)\<close> for a string \<open>s\<close> of digits.  A superscript is a digit and not a decimal
  digit, so \<^verbatim>\<open>int\<close> raises \<^verbatim>\<open>ValueError\<close> on it.  The interpreter also refuses to convert
  a string of more than \<open>max_str_digits\<close> digits (4300 unless configured otherwise; 0
  switches the limit off).
\<close>

definition int_of_digits :: "nat \<Rightarrow> string \<Rightarrow> error + int" where
  "int_of_digits max_str_digits s =
     (if \<not> list_all is_decimal s
      then Inl (ValueError (''invalid literal for int() with base 10: '' @ s))
      else if 0 < max_str_digits \<and> max_str_digits < length s
      then Inl (ValueError ''Exceeds the limit for integer string conversion'')
      else Inr (int_of_str s))"

subsection \<open>Formatting values in an f-string\<close>

text \<open>\<^verbatim>\<open>str\<close> of an \<^verbatim>\<open>int\<close>: the decimal digits, with a minus sign below zero.\<close>

definition digit_char :: "nat \<Rightarrow> char" where
  "digit_char d = ''0123456789'' ! d"

fun str_nat :: "nat \<Rightarrow> string" where
  "str_nat n = (if n < 10 then [digit_char n] else str_nat (n div 10) @ [digit_char (n mod 10)])"

declare str_nat.simps [simp del]

definition str_int :: "int \<Rightarrow> string" where
  "str_int i = (if i < 0 then CHR ''-'' # str_nat (nat (- i)) else str_nat (nat i))"

definition str_bool :: "bool \<Rightarrow> string" where
  "str_bool b = (if b then ''True'' else ''False'')"

text \<open>
  An \<^verbatim>\<open>Optional[float]\<close> in an f-string: \<^verbatim>\<open>None\<close>, or the float as \<^verbatim>\<open>str\<close> prints
  it.  The printing of a float is the interpreter's, taken as the parameter
  \<open>float_str\<close>.
\<close>

definition str_optional_float :: "('f \<Rightarrow> string) \<Rightarrow> 'f option \<Rightarrow> string" where
  "str_optional_float float_str x = (case x of None \<Rightarrow> ''None'' | Some v \<Rightarrow> float_str v)"

subsection \<open>Enumerations\<close>

datatype NodeType = REPEATER | ROOM_SERVER | COMPANION

text \<open>The \<^verbatim>\<open>.value\<close> of a \<^verbatim>\<open>NodeType\<close> member.\<close>

fun NodeType_value :: "NodeType \<Rightarrow> int" where
  "NodeType_value REPEATER = 1"
| "NodeType_value ROOM_SERVER = 2"
| "NodeType_value COMPANION = 3"

definition NodeType_from_int :: "int \<Rightarrow> error + NodeType" where
  "NodeType_from_int role =
     (if role = 1 then Inr REPEATER
      else if role = 2 then Inr ROOM_SERVER
      else if role = 3 then Inr COMPANION
      else Inl (ValueError (''Unknown device role: '' @ str_int role)))"

datatype LetsMeshNodeRole = LM_COMPANION | LM_REPEATER | LM_ROOM

fun LetsMeshNodeRole_value :: "LetsMeshNodeRole \<Rightarrow> int" where
  "LetsMeshNodeRole_value LM_COMPANION = 1"
| "LetsMeshNodeRole_value LM_REPEATER = 2"
| "LetsMeshNodeRole_value LM_ROOM = 3"

definition LetsMeshNodeRole_from_int :: "int \<Rightarrow> error + LetsMeshNodeRole" where
  "LetsMeshNodeRole_from_int role =
     (if role = 1 then Inr LM_COMPANION
      else if role = 2 then Inr LM_REPEATER
      else if role = 3 then Inr LM_ROOM
      else Inl (ValueError (''Unknown device role: '' @ str_int role)))"

text \<open>
  \<^verbatim>\<open>LetsMeshNodeRole.to_node_type\<close>: an \<^verbatim>\<open>if\<close>/\<^verbatim>\<open>elif\<close> chain over the members with a
  final \<^verbatim>\<open>else: raise ValueError\<close>.
\<close>

definition to_node_type :: "LetsMeshNodeRole \<Rightarrow> error + NodeType" where
  "to_node_type self =
     (if self = LM_COMPANION then Inr COMPANION
      else if self = LM_REPEATER then Inr REPEATER
      else if self = LM_ROOM then Inr ROOM_SERVER
      else Inl (ValueError (''Unknown device role: '' @ str_int (LetsMeshNodeRole_value self))))"

subsection \<open>Reserved public key identifiers\<close>

definition is_reserved_public_key_id :: "string \<Rightarrow> bool" where
  "is_reserved_public_key_id public_key_id =
     (if upper (take 2 public_key_id) \<in> set [''00'', ''FF''] then True
      else if upper (take 1 public_key_id) \<in> set [''A''] then True
      else False)"

subsection \<open>The canonical node\<close>

record 'f Node =
  public_key :: string
  name :: string
  latitude :: "'f option"
  longitude :: "'f option"
  node_type :: NodeType
  is_observer :: bool
  contact :: "string option"
  created_at :: int
  last_heard :: int

definition public_key_id_4_char :: "'f Node \<Rightarrow> string" where
  "public_key_id_4_char self = upper (take 4 (public_key self))"

definition public_key_id_2_char :: "'f Node \<Rightarrow> string" where
  "public_key_id_2_char self = upper (take 2 (public_key self))"

definition public_key_id :: "'f Node \<Rightarrow> string" where
  "public_key_id self = public_key_id_4_char self"

text \<open>
  \<^verbatim>\<open>Node.hash\<close>, the fingerprint.  The local \<^verbatim>\<open>_input\<close> is the f-string; the result is
  the built-in \<^verbatim>\<open>hash\<close> of that string, which is fixed during one run of the
  interpreter and is the parameter \<open>py_hash\<close>.
\<close>

definition Node_hash_input :: "('f \<Rightarrow> string) \<Rightarrow> 'f Node \<Rightarrow> string" where
  "Node_hash_input float_str self =
     name self @ '':'' @ public_key_id self @ '':'' @
     str_int (NodeType_value (node_type self)) @ '':'' @
     str_optional_float float_str (latitude self) @ '':'' @
     str_optional_float float_str (longitude self) @ '':'' @
     str_bool (is_observer self)"

definition Node_hash :: "(string \<Rightarrow> int) \<Rightarrow> ('f \<Rightarrow> string) \<Rightarrow> 'f Node \<Rightarrow> int" where
  "Node_hash py_hash float_str self = py_hash (Node_hash_input float_str self)"

definition are_same_node :: "'f Node \<Rightarrow> 'f Node \<Rightarrow> bool" where
  "are_same_node node_1 node_2 =
     (if upper (public_key node_1) = upper (public_key node_2) then True else False)"

subsection \<open>JSON values and \<^verbatim>\<open>Node.to_json\<close>\<close>

datatype 'f json =
    JNull
  | JBool bool
  | JInt int
  | JFloat 'f
  | JString string
  | JArray "'f json list"
  | JObject "(string \<times> 'f json) list"

definition json_optional_float :: "'f option \<Rightarrow> 'f json" where
  "json_optional_float x = (case x of None \<Rightarrow> JNull | Some v \<Rightarrow> JFloat v)"

definition json_optional_str :: "string option \<Rightarrow> 'f json" where
  "json_optional_str x = (case x of None \<Rightarrow> JNull | Some v \<Rightarrow> JString v)"

definition to_json :: "'f Node \<Rightarrow> 'f json" where
  "to_json self = JObject
     [(''public_key'', JString (public_key self)),
      (''name'', JString (name self)),
      (''latitude'', json_optional_float (latitude self)),
      (''longitude'', json_optional_float (longitude self)),
      (''node_type'', JInt (NodeType_value (node_type self))),
      (''is_observer'', JBool (is_observer self)),
      (''contact'', json_optional_str (contact self)),
      (''created_at'', JInt (created_at self)),
      (''last_heard'', JInt (last_heard self))]"

subsection \<open>Reconciliation: \<^verbatim>\<open>_filter_diff_nodes\<close>\<close>

text \<open>
  A Python \<^verbatim>\<open>dict\<close> is an association list in insertion order: \<open>AList.update\<close>
  replaces the value of a key that is present and appends a key that is not, as an
  assignment \<^verbatim>\<open>d[k] = v\<close> does.  A subscript \<^verbatim>\<open>d[k]\<close> raises \<^verbatim>\<open>KeyError\<close> on an absent
  key.
\<close>

definition dict_get :: "('k \<times> 'v) list \<Rightarrow> 'k \<Rightarrow> 'v option" where
  "dict_get d k = map_of d k"

text \<open>
  The body shared by the two \<^verbatim>\<open>for node in ...\<close> statements: each node's hash is stored in a hash
  map and the node in the combined map \<^verbatim>\<open>all_nodes\<close>.  \<open>H\<close> is \<^verbatim>\<open>node.hash\<close>.
\<close>

fun index_nodes ::
  "('n \<Rightarrow> int) \<Rightarrow> 'n list \<Rightarrow> (int \<times> int) list \<times> (int \<times> 'n) list
     \<Rightarrow> (int \<times> int) list \<times> (int \<times> 'n) list" where
  "index_nodes H [] (hash_map, all_nodes) = (hash_map, all_nodes)"
| "index_nodes H (node # nodes) (hash_map, all_nodes) =
     (let h = H node
      in index_nodes H nodes (AList.update h h hash_map, AList.update h node all_nodes))"

text \<open>
  A Python \<^verbatim>\<open>set\<close> is a list without repetitions.  The order in which CPython
  iterates over a set depends on its hash table; the model keeps the order of the
  list the set is built from, and no property below depends on that order.
\<close>

definition py_set :: "'a list \<Rightarrow> 'a list" where
  "py_set xs = remdups xs"

definition set_difference :: "'a list \<Rightarrow> 'a list \<Rightarrow> 'a list" where
  "set_difference a b = filter (\<lambda>x. x \<notin> set b) a"

definition set_intersection :: "'a list \<Rightarrow> 'a list \<Rightarrow> 'a list" where
  "set_intersection a b = filter (\<lambda>x. x \<in> set b) a"

text \<open>\<^verbatim>\<open>list(all_nodes[_hash] for _hash, _ in s)\<close>\<close>

fun lookup_nodes :: "(int \<times> 'n) list \<Rightarrow> (int \<times> int) list \<Rightarrow> error + 'n list" where
  "lookup_nodes all_nodes [] = Inr []"
| "lookup_nodes all_nodes ((h, _) # rest) =
     (case dict_get all_nodes h of
        None \<Rightarrow> Inl (KeyError h)
      | Some node \<Rightarrow>
          (case lookup_nodes all_nodes rest of
             Inl e \<Rightarrow> Inl e
           | Inr nodes \<Rightarrow> Inr (node # nodes)))"

definition filter_diff ::
  "('n \<Rightarrow> int) \<Rightarrow> 'n list \<Rightarrow> 'n list \<Rightarrow> error + ('n list \<times> 'n list \<times> 'n list)" where
  "filter_diff H existing_nodes new_nodes =
     (let (existing_node_hash_map, all_nodes0) = index_nodes H existing_nodes ([], []);
          (new_node_hash_map, all_nodes) = index_nodes H new_nodes ([], all_nodes0);
          existing_nodes_set = py_set existing_node_hash_map;
          new_nodes_set = py_set new_node_hash_map;
          true_new_nodes = set_difference new_nodes_set existing_nodes_set;
          duplicate_nodes = set_intersection new_nodes_set existing_nodes_set;
          missing_nodes = set_difference existing_nodes_set new_nodes_set
      in case lookup_nodes all_nodes true_new_nodes of
           Inl e \<Rightarrow> Inl e
         | Inr new_nodes_list \<Rightarrow>
             (case lookup_nodes all_nodes duplicate_nodes of
                Inl e \<Rightarrow> Inl e
              | Inr duplicate_nodes_list \<Rightarrow>
                  (case lookup_nodes all_nodes missing_nodes of
                     Inl e \<Rightarrow> Inl e
                   | Inr missing_nodes_list \<Rightarrow>
                       Inr (new_nodes_list, duplicate_nodes_list, missing_nodes_list))))"

text \<open>\<^verbatim>\<open>_filter_diff_nodes\<close>: the body above with \<^verbatim>\<open>node.hash\<close> for \<open>H\<close>.\<close>

definition filter_diff_nodes ::
  "(string \<Rightarrow> int) \<Rightarrow> ('f \<Rightarrow> string) \<Rightarrow> 'f Node list \<Rightarrow> 'f Node list
     \<Rightarrow> error + ('f Node list \<times> 'f Node list \<times> 'f Node list)" where
  "filter_diff_nodes py_hash float_str existing_nodes new_nodes =
     filter_diff (Node_hash py_hash float_str) existing_nodes new_nodes"

text \<open>
  The node that a fingerprint resolves to in a list: the last node of the list with
  that fingerprint, since a later assignment to a key of \<^verbatim>\<open>all_nodes\<close> overwrites an
  earlier one.  It is used to state the properties, not by the program.
\<close>

definition latest :: "('n \<Rightarrow> int) \<Rightarrow> 'n list \<Rightarrow> int \<Rightarrow> 'n" where
  "latest H nodes k = last (filter (\<lambda>n. H n = k) nodes)"

subsection \<open>Timestamps\<close>

text \<open>
  \<^verbatim>\<open>time.strptime(iso_str, "%Y-%m-%dT%H:%M:%S.%fZ")\<close>.  The library turns the format
  into a regular expression, matched ignoring case, in which each directive is a
  group of digits and each other character stands for itself; the whole string
  must match.  No group can contain the character that follows it in the format,
  so each field is the text up to the next separator.  The fields are then checked
  as the groups do (\<^verbatim>\<open>%Y\<close> four digits; \<^verbatim>\<open>%m\<close> 1 to 12; \<^verbatim>\<open>%d\<close> 1 to 31, or a space
  and a digit; \<^verbatim>\<open>%H\<close> 0 to 23; \<^verbatim>\<open>%M\<close> 0 to 59; \<^verbatim>\<open>%S\<close> 0 to 61, each of one or two digits;
  \<^verbatim>\<open>%f\<close> one to six digits), and the date must exist.  The week day, the day of the
  year and the daylight-saving flag of the result are left out: \<^verbatim>\<open>time.mktime\<close> does
  not read the first two and the flag is always -1.
\<close>

record struct_time =
  tm_year :: int
  tm_mon :: int
  tm_mday :: int
  tm_hour :: int
  tm_min :: int
  tm_sec :: int

definition split_at :: "(char \<Rightarrow> bool) \<Rightarrow> string \<Rightarrow> (string \<times> string) option" where
  "split_at P s =
     (case dropWhile (\<lambda>c. \<not> P c) s of
        [] \<Rightarrow> None
      | _ # rest \<Rightarrow> Some (takeWhile (\<lambda>c. \<not> P c) s, rest))"

definition digit_field :: "nat \<Rightarrow> nat \<Rightarrow> int \<Rightarrow> int \<Rightarrow> string \<Rightarrow> int option" where
  "digit_field min_len max_len lo hi s =
     (if list_all is_decimal s \<and> min_len \<le> length s \<and> length s \<le> max_len
         \<and> lo \<le> int_of_str s \<and> int_of_str s \<le> hi
      then Some (int_of_str s) else None)"

definition day_field :: "string \<Rightarrow> int option" where
  "day_field s =
     (case s of
        [sp, c] \<Rightarrow> if sp = CHR '' '' \<and> c \<in> set ''123456789'' then Some (digit_value c)
                   else digit_field 1 2 1 31 s
      | _ \<Rightarrow> digit_field 1 2 1 31 s)"

definition is_leap :: "int \<Rightarrow> bool" where
  "is_leap y = (y mod 4 = 0 \<and> (y mod 100 \<noteq> 0 \<or> y mod 400 = 0))"

definition days_in_month :: "int \<Rightarrow> int \<Rightarrow> int" where
  "days_in_month y m =
     (if m = 2 then (if is_leap y then 29 else 28)
      else if m \<in> {4, 6, 9, 11} then 30 else 31)"

definition strptime_iso :: "string \<Rightarrow> error + struct_time" where
  "strptime_iso data_string =
     (case split_at (\<lambda>c. c = CHR ''-'') data_string of None \<Rightarrow> Inl (ValueError ''time data does not match format'') | Some (Y, r1) \<Rightarrow>
      case split_at (\<lambda>c. c = CHR ''-'') r1 of None \<Rightarrow> Inl (ValueError ''time data does not match format'') | Some (m, r2) \<Rightarrow>
      case split_at (\<lambda>c. c = CHR ''T'' \<or> c = CHR ''t'') r2 of None \<Rightarrow> Inl (ValueError ''time data does not match format'') | Some (d, r3) \<Rightarrow>
      case split_at (\<lambda>c. c = CHR '':'') r3 of None \<Rightarrow> Inl (ValueError ''time data does not match format'') | Some (H, r4) \<Rightarrow>
      case split_at (\<lambda>c. c = CHR '':'') r4 of None \<Rightarrow> Inl (ValueError ''time data does not match format'') | Some (M, r5) \<Rightarrow>
      case split_at (\<lambda>c. c = CHR ''.'') r5 of None \<Rightarrow> Inl (ValueError ''time data does not match format'') | Some (S, r6) \<Rightarrow>
      case split_at (\<lambda>c. c = CHR ''Z'' \<or> c = CHR ''z'') r6 of None \<Rightarrow> Inl (ValueError ''time data does not match format'') | Some (f, r7) \<Rightarrow>
      (case (digit_field 4 4 0 9999 Y, digit_field 1 2 1 12 m, day_field d,
             digit_field 1 2 0 23 H, digit_field 1 2 0 59 M, digit_field 1 2 0 61 S,
             digit_field 1 6 0 999999 f) of
         (Some year, Some month, Some day, Some hour, Some minute, Some second, Some fraction) \<Rightarrow>
           if r7 \<noteq> [] then Inl (ValueError ''time data does not match format'')
           else if year < 1 \<or> day > days_in_month year month then Inl (ValueError ''time data does not match format'')
           else Inr \<lparr>tm_year = year, tm_mon = month, tm_mday = day,
                     tm_hour = hour, tm_min = minute, tm_sec = second\<rparr>
       | _ \<Rightarrow> Inl (ValueError ''time data does not match format'')))"

text \<open>
  \<^verbatim>\<open>time.mktime\<close> reads its argument as local time.  \<open>timegm\<close> counts the seconds from
  the epoch to a wall-clock time read as UTC; \<open>utcoffset t\<close> is the offset of the
  host's time zone from UTC, in seconds east, at the wall-clock time \<open>t\<close>.  On a host
  whose zone is UTC it is 0.
\<close>

definition days_from_civil :: "int \<Rightarrow> int \<Rightarrow> int \<Rightarrow> int" where
  "days_from_civil y m d =
     (let y' = (if m \<le> 2 then y - 1 else y);
          era = y' div 400;
          yoe = y' - era * 400;
          doy = (153 * (if m > 2 then m - 3 else m + 9) + 2) div 5 + d - 1;
          doe = yoe * 365 + yoe div 4 - yoe div 100 + doy
      in era * 146097 + doe - 719468)"

definition timegm :: "struct_time \<Rightarrow> int" where
  "timegm t = days_from_civil (tm_year t) (tm_mon t) (tm_mday t) * 86400
               + tm_hour t * 3600 + tm_min t * 60 + tm_sec t"

definition mktime :: "(struct_time \<Rightarrow> int) \<Rightarrow> struct_time \<Rightarrow> int" where
  "mktime utcoffset t = timegm t - utcoffset t"

text \<open>\<^verbatim>\<open>_iso8601_to_unix_timestamp\<close>: every exception of the parse is caught and gives 0.\<close>

definition iso8601_to_unix_timestamp :: "(struct_time \<Rightarrow> int) \<Rightarrow> string \<Rightarrow> int" where
  "iso8601_to_unix_timestamp utcoffset iso_str =
     (if iso_str = [] then 0
      else case strptime_iso iso_str of
             Inl e \<Rightarrow> 0
           | Inr dt \<Rightarrow> mktime utcoffset dt)"

subsection \<open>Provider records and their normalisation\<close>

text \<open>
  The records parsed from the two providers.  Their fields carry the prefixes \<open>mm_\<close>,
  \<open>lm_\<close> and \<open>loc_\<close>, since several of them share a name with a field of \<^verbatim>\<open>Node\<close>.
\<close>

record 'f MeshMapperRepeater =
  mm_id :: string
  mm_hex_id :: string
  mm_name :: string
  mm_lat :: 'f
  mm_lon :: 'f
  mm_last_heard :: int
  mm_created_at :: string
  mm_enabled :: int
  mm_power :: string
  mm_iata :: string

record 'f LetsMeshNodeLocation =
  loc_latitude :: 'f
  loc_longitude :: 'f

record 'f LetsMeshNode =
  lm_public_key :: string
  lm_name :: string
  lm_device_role :: LetsMeshNodeRole
  lm_regions :: "string list"
  lm_first_seen :: string
  lm_last_seen :: string
  lm_is_mqtt_connected :: bool
  lm_location :: "'f LetsMeshNodeLocation option"

text \<open>
  An item of the \<^verbatim>\<open>nodes\<close> array that Provider B sends, before it is made a
  \<^verbatim>\<open>LetsMeshNode\<close>: the device role is still the integer of the JSON document.
\<close>

record 'f LetsMeshRecord =
  rec_public_key :: string
  rec_name :: string
  rec_device_role :: int
  rec_regions :: "string list"
  rec_first_seen :: string
  rec_last_seen :: string
  rec_is_mqtt_connected :: bool
  rec_location :: "'f LetsMeshNodeLocation option"

text \<open>
  \<^verbatim>\<open>LetsMeshNodeRole(value)\<close>, the member of the enumeration with a given value;
  Python raises \<^verbatim>\<open>ValueError\<close> when there is none.
\<close>

definition LetsMeshNodeRole_by_value :: "int \<Rightarrow> error + LetsMeshNodeRole" where
  "LetsMeshNodeRole_by_value v =
     (case find (\<lambda>member. LetsMeshNodeRole_value member = v) [LM_COMPANION, LM_REPEATER, LM_ROOM] of
        None \<Rightarrow> Inl (ValueError (str_int v @ '' is not a valid LetsMeshNodeRole''))
      | Some member \<Rightarrow> Inr member)"

text \<open>
  Modelled from the spec: the construction of a \<^verbatim>\<open>LetsMeshNode\<close> from an item of the
  response is done by pydantic inside \<^verbatim>\<open>objectrest.get_object\<close>, which is not part of
  the source.  By the spec an unknown device-role integer is a fatal
  input-validation error, and the role is one of the three members otherwise; the
  field \<^verbatim>\<open>device_role: LetsMeshNodeRole\<close> is validated by looking the integer up among the
  values of the enumeration, and a failed look-up is a validation error.  The other
  fields are taken over.
\<close>

definition LetsMeshNode_validate :: "'f LetsMeshRecord \<Rightarrow> error + 'f LetsMeshNode" where
  "LetsMeshNode_validate item =
     (case LetsMeshNodeRole_by_value (rec_device_role item) of
        Inl e \<Rightarrow> Inl ValidationError
      | Inr role \<Rightarrow>
          Inr \<lparr>lm_public_key = rec_public_key item,
               lm_name = rec_name item,
               lm_device_role = role,
               lm_regions = rec_regions item,
               lm_first_seen = rec_first_seen item,
               lm_last_seen = rec_last_seen item,
               lm_is_mqtt_connected = rec_is_mqtt_connected item,
               lm_location = rec_location item\<rparr>)"

text \<open>
  A list built item by item from an expression that may raise: the first exception
  ends the construction.
\<close>

fun collect :: "('a \<Rightarrow> error + 'b) \<Rightarrow> 'a list \<Rightarrow> error + 'b list" where
  "collect f [] = Inr []"
| "collect f (x # xs) =
     (case f x of
        Inl e \<Rightarrow> Inl e
      | Inr y \<Rightarrow> (case collect f xs of Inl e \<Rightarrow> Inl e | Inr ys \<Rightarrow> Inr (y # ys)))"

text \<open>
  \<^verbatim>\<open>_get_letsmesh_nodes\<close>; the items of the response are the argument.
\<close>

definition get_letsmesh_nodes :: "'f LetsMeshRecord list \<Rightarrow> error + 'f LetsMeshNode list" where
  "get_letsmesh_nodes items = collect LetsMeshNode_validate items"

text \<open>
  \<^verbatim>\<open>_meshmapper_node_is_room\<close>: the first LetsMesh node whose public key equals the
  repeater's \<^verbatim>\<open>hex_id\<close>, both upper-cased, decides; without one the answer is no.
\<close>

fun meshmapper_node_is_room :: "'f MeshMapperRepeater \<Rightarrow> 'f LetsMeshNode list \<Rightarrow> bool" where
  "meshmapper_node_is_room node [] = False"
| "meshmapper_node_is_room node (lm_node # letsmesh_nodes) =
     (if upper (lm_public_key lm_node) = upper (mm_hex_id node)
      then lm_device_role lm_node = LM_ROOM
      else meshmapper_node_is_room node letsmesh_nodes)"

text \<open>\<^verbatim>\<open>_build_contact_url\<close>; \<^verbatim>\<open>urllib.parse.quote\<close> is the parameter \<open>quote\<close>.\<close>

definition build_contact_url :: "(string \<Rightarrow> string) \<Rightarrow> string \<Rightarrow> string \<Rightarrow> string" where
  "build_contact_url quote name' public_key' =
     (let encoded_name = quote name'
      in ''meshcore://contact/add?name='' @ encoded_name @ ''&public_key='' @ upper public_key'
         @ ''&type=2'')"

text \<open>
  The \<^verbatim>\<open>Node(...)\<close> expression of \<^verbatim>\<open>get_den_repeaters\<close> for one repeater.  It raises
  when \<^verbatim>\<open>created_at\<close> passes \<^verbatim>\<open>isdigit()\<close> and \<^verbatim>\<open>int\<close> refuses it.
\<close>

definition repeater_node ::
  "(string \<Rightarrow> string) \<Rightarrow> nat \<Rightarrow> 'f LetsMeshNode list \<Rightarrow> 'f MeshMapperRepeater
     \<Rightarrow> error + 'f Node" where
  "repeater_node quote max_str_digits letsmesh_nodes repeater =
     (case (if isdigit (mm_created_at repeater)
            then int_of_digits max_str_digits (mm_created_at repeater) else Inr 0) of
        Inl e \<Rightarrow> Inl e
      | Inr created \<Rightarrow>
          Inr \<lparr>public_key = mm_hex_id repeater,
               name = mm_name repeater,
               latitude = Some (mm_lat repeater),
               longitude = Some (mm_lon repeater),
               node_type =
                 (if meshmapper_node_is_room repeater letsmesh_nodes \<and> letsmesh_nodes \<noteq> []
                  then ROOM_SERVER else REPEATER),
               is_observer = False,
               contact = Some (build_contact_url quote (mm_name repeater) (mm_hex_id repeater)),
               created_at = created,
               last_heard = mm_last_heard repeater\<rparr>)"

text \<open>
  \<^verbatim>\<open>get_den_repeaters\<close>; the repeaters fetched from Provider A and the items of
  Provider B's response are arguments.
\<close>

definition get_den_repeaters ::
  "(string \<Rightarrow> string) \<Rightarrow> nat \<Rightarrow> 'f MeshMapperRepeater list \<Rightarrow> 'f LetsMeshRecord list
     \<Rightarrow> error + 'f Node list" where
  "get_den_repeaters quote max_str_digits meshmapper_repeaters letsmesh_items =
     (case get_letsmesh_nodes letsmesh_items of
        Inl e \<Rightarrow> Inl e
      | Inr letsmesh_nodes \<Rightarrow>
          collect (repeater_node quote max_str_digits letsmesh_nodes) meshmapper_repeaters)"

text \<open>The \<^verbatim>\<open>Node(...)\<close> expression of \<^verbatim>\<open>get_den_companions\<close> for one node.\<close>

definition companion_node ::
  "(string \<Rightarrow> string) \<Rightarrow> (struct_time \<Rightarrow> int) \<Rightarrow> 'f LetsMeshNode \<Rightarrow> error + 'f Node" where
  "companion_node quote utcoffset node =
     (case to_node_type (lm_device_role node) of
        Inl e \<Rightarrow> Inl e
      | Inr type \<Rightarrow>
          Inr \<lparr>public_key = lm_public_key node,
               name = lm_name node,
               latitude = map_option loc_latitude (lm_location node),
               longitude = map_option loc_longitude (lm_location node),
               node_type = type,
               is_observer = (\<not> lm_is_mqtt_connected node),
               contact = Some (build_contact_url quote (lm_name node) (lm_public_key node)),
               created_at = iso8601_to_unix_timestamp utcoffset (lm_first_seen node),
               last_heard = iso8601_to_unix_timestamp utcoffset (lm_last_seen node)\<rparr>)"

text \<open>\<^verbatim>\<open>get_den_companions\<close>; the items of Provider B's response are the argument.\<close>

definition get_den_companions ::
  "(string \<Rightarrow> string) \<Rightarrow> (struct_time \<Rightarrow> int) \<Rightarrow> 'f LetsMeshRecord list
     \<Rightarrow> error + 'f Node list" where
  "get_den_companions quote utcoffset letsmesh_items =
     (case get_letsmesh_nodes letsmesh_items of
        Inl e \<Rightarrow> Inl e
      | Inr letsmesh_nodes \<Rightarrow>
          collect (companion_node quote utcoffset)
            (filter (\<lambda>node. lm_device_role node = LM_COMPANION) letsmesh_nodes))"

subsection \<open>The snapshot store\<close>

text \<open>
  The file system maps a path to the text of the file at that path, if there is one.
  \<^verbatim>\<open>json.load\<close>, \<^verbatim>\<open>json.dumps\<close> and the pydantic constructor \<^verbatim>\<open>Node(**item)\<close> are
  library code and are the parameters \<open>json_load\<close>, \<open>json_dumps\<close> and
  \<open>Node_validate\<close>.
\<close>

type_synonym storage = "string \<Rightarrow> string option"

text \<open>
  \<^verbatim>\<open>for item in _data\<close>: a list yields its items, a dictionary its keys, a string its
  characters; any other JSON value is not iterable.
\<close>

fun json_iter :: "'f json \<Rightarrow> error + 'f json list" where
  "json_iter (JArray items) = Inr items"
| "json_iter (JObject members) = Inr (map (\<lambda>(key, _). JString key) members)"
| "json_iter (JString s) = Inr (map (\<lambda>c. JString [c]) s)"
| "json_iter JNull = Inl TypeError"
| "json_iter (JBool _) = Inl TypeError"
| "json_iter (JInt _) = Inl TypeError"
| "json_iter (JFloat _) = Inl TypeError"

text \<open>The body of that statement: \<^verbatim>\<open>nodes.append(Node(**item))\<close>.\<close>

fun append_nodes ::
  "('f json \<Rightarrow> error + 'f Node) \<Rightarrow> 'f json list \<Rightarrow> 'f Node list \<Rightarrow> error + 'f Node list" where
  "append_nodes Node_validate [] nodes = Inr nodes"
| "append_nodes Node_validate (item # items) nodes =
     (case Node_validate item of
        Inl e \<Rightarrow> Inl e
      | Inr node \<Rightarrow> append_nodes Node_validate items (nodes @ [node]))"

text \<open>\<^verbatim>\<open>_read_nodes_from_file\<close>: a path without a file gives the empty list.\<close>

definition read_nodes_from_file ::
  "(string \<Rightarrow> error + 'f json) \<Rightarrow> ('f json \<Rightarrow> error + 'f Node) \<Rightarrow> storage \<Rightarrow> string
     \<Rightarrow> error + 'f Node list" where
  "read_nodes_from_file json_load Node_validate fs file_path =
     (case fs file_path of
        None \<Rightarrow> Inr []
      | Some text \<Rightarrow>
          (case json_load text of
             Inl e \<Rightarrow> Inl e
           | Inr data \<Rightarrow>
               (case json_iter data of
                  Inl e \<Rightarrow> Inl e
                | Inr items \<Rightarrow> append_nodes Node_validate items [])))"

text \<open>
  \<^verbatim>\<open>sync_repeaters\<close> and \<^verbatim>\<open>sync_companions\<close>.  The list fetched from the network
  (\<^verbatim>\<open>get_den_repeaters()\<close>, \<^verbatim>\<open>get_den_companions()\<close>) is an argument; the result is
  the file system after the run, or the exception that ended it.  Console output is
  left out.
\<close>

definition sync_repeaters ::
  "(string \<Rightarrow> int) \<Rightarrow> ('f \<Rightarrow> string) \<Rightarrow> (string \<Rightarrow> error + 'f json) \<Rightarrow> ('f json \<Rightarrow> string)
     \<Rightarrow> ('f json \<Rightarrow> error + 'f Node) \<Rightarrow> storage \<Rightarrow> string \<Rightarrow> 'f Node list \<Rightarrow> error + storage" where
  "sync_repeaters py_hash float_str json_load json_dumps Node_validate fs storage_file_path repeaters =
     (case read_nodes_from_file json_load Node_validate fs storage_file_path of
        Inl e \<Rightarrow> Inl e
      | Inr existing_repeaters \<Rightarrow>
          (case filter_diff_nodes py_hash float_str existing_repeaters repeaters of
             Inl e \<Rightarrow> Inl e
           | Inr (new, duplicate, missing) \<Rightarrow>
               if new \<noteq> [] \<or> missing \<noteq> []
               then Inr (fs(storage_file_path \<mapsto> json_dumps (JArray (map to_json repeaters))))
               else Inr fs))"

definition sync_companions ::
  "(string \<Rightarrow> int) \<Rightarrow> ('f \<Rightarrow> string) \<Rightarrow> (string \<Rightarrow> error + 'f json) \<Rightarrow> ('f json \<Rightarrow> string)
     \<Rightarrow> ('f json \<Rightarrow> error + 'f Node) \<Rightarrow> storage \<Rightarrow> string \<Rightarrow> 'f Node list \<Rightarrow> error + storage" where
  "sync_companions py_hash float_str json_load json_dumps Node_validate fs storage_file_path companions =
     (case read_nodes_from_file json_load Node_validate fs storage_file_path of
        Inl e \<Rightarrow> Inl e
      | Inr existing_companions \<Rightarrow>
          (case filter_diff_nodes py_hash float_str existing_companions companions of
             Inl e \<Rightarrow> Inl e
           | Inr (new, duplicate, missing) \<Rightarrow>
               if new \<noteq> [] \<or> missing \<noteq> []
               then Inr (fs(storage_file_path \<mapsto> json_dumps (JArray (map to_json companions))))
               else Inr fs))"

subsection \<open>Example data\<close>

text \<open>
  Concrete inputs for the examples below.  A float is given by the text that Python
  prints for it, so \<open>float_str\<close> is the identity, and the stand-in for the built-in
  \<^verbatim>\<open>hash\<close> gives the fingerprint strings of the example nodes the values 1, 2, 3.
\<close>

definition example_float_str :: "string \<Rightarrow> string" where
  "example_float_str x = x"

definition example_hash :: "string \<Rightarrow> int" where
  "example_hash s =
     (if s = ''Alpha:AB12:1:39.7392:-104.9903:False'' then 1
      else if s = ''Alpha Hill:AB12:1:39.7392:-104.9903:False'' then 2
      else if s = ''Bravo:00FF:3:None:None:True'' then 3
      else 0)"

definition node_alpha :: "string Node" where
  "node_alpha = \<lparr>public_key = ''ab12cd34'', name = ''Alpha'', latitude = Some ''39.7392'',
     longitude = Some ''-104.9903'', node_type = REPEATER, is_observer = False,
     contact = None, created_at = 1700000000, last_heard = 1771377540\<rparr>"

definition node_alpha_renamed :: "string Node" where
  "node_alpha_renamed = node_alpha\<lparr>name := ''Alpha Hill''\<rparr>"

definition node_hill_other_key :: "string Node" where
  "node_hill_other_key = node_alpha_renamed\<lparr>public_key := ''AB12FFFF''\<rparr>"

definition node_alpha_later :: "string Node" where
  "node_alpha_later = node_alpha\<lparr>last_heard := 1771381140\<rparr>"

definition node_bravo :: "string Node" where
  "node_bravo = \<lparr>public_key = ''00ffee'', name = ''Bravo'', latitude = None,
     longitude = None, node_type = COMPANION, is_observer = True,
     contact = Some ''meshcore://contact/add?name=Bravo&public_key=00FFEE&type=2'',
     created_at = 0, last_heard = 1771377540\<rparr>"

text \<open>
  Stand-ins for the three library functions on the example data: the file texts
  \<^verbatim>\<open>[alpha]\<close> and \<^verbatim>\<open>[alpha hill, bravo]\<close> stand for the JSON documents of those nodes.
\<close>

definition example_json_load :: "string \<Rightarrow> error + string json" where
  "example_json_load text =
     (if text = ''[alpha]'' then Inr (JArray [to_json node_alpha])
      else if text = ''[alpha hill, bravo]'' then Inr (JArray [to_json node_alpha_renamed, to_json node_bravo])
      else Inl JSONDecodeError)"

definition example_json_dumps :: "string json \<Rightarrow> string" where
  "example_json_dumps data =
     (if data = JArray [to_json node_alpha] then ''[alpha]''
      else if data = JArray [to_json node_alpha_renamed, to_json node_bravo] then ''[alpha hill, bravo]''
      else ''null'')"

definition example_Node_validate :: "string json \<Rightarrow> error + string Node" where
  "example_Node_validate item =
     (if item = to_json node_alpha then Inr node_alpha
      else if item = to_json node_alpha_renamed then Inr node_alpha_renamed
      else if item = to_json node_bravo then Inr node_bravo
      else Inl ValidationError)"

definition example_storage :: storage where
  "example_storage = [''repeaters.json'' \<mapsto> ''[alpha]'']"

text \<open>
  Provider records for the examples.  The stand-in for \<^verbatim>\<open>quote\<close> is the identity, which
  is what \<^verbatim>\<open>quote\<close> does on a name of letters and digits.
\<close>

definition example_quote :: "string \<Rightarrow> string" where
  "example_quote s = s"

definition example_repeater :: "string MeshMapperRepeater" where
  "example_repeater = \<lparr>mm_id = ''17'', mm_hex_id = ''AB12'', mm_name = ''Ridge'',
     mm_lat = ''39.7392'', mm_lon = ''-104.9903'', mm_last_heard = 1771377540,
     mm_created_at = ''1700000000'', mm_enabled = 1, mm_power = ''22'', mm_iata = ''DEN''\<rparr>"

definition example_room :: "string LetsMeshRecord" where
  "example_room = \<lparr>rec_public_key = ''ab12'', rec_name = ''Ridge'', rec_device_role = 3,
     rec_regions = [''DEN''], rec_first_seen = ''2026-02-18T01:19:00.379Z'',
     rec_last_seen = ''2026-02-18T02:19:00.379Z'', rec_is_mqtt_connected = True,
     rec_location = None\<rparr>"

definition example_room_long_key :: "string LetsMeshRecord" where
  "example_room_long_key = example_room\<lparr>rec_public_key := ''AB12CD34EF56''\<rparr>"

definition example_same_key_repeater :: "string LetsMeshRecord" where
  "example_same_key_repeater =
     example_room\<lparr>rec_public_key := ''AB12'', rec_device_role := 2\<rparr>"

definition example_unknown_role :: "string LetsMeshRecord" where
  "example_unknown_role = example_room\<lparr>rec_device_role := 4\<rparr>"

definition example_companion :: "string LetsMeshRecord" where
  "example_companion = example_room\<lparr>rec_public_key := ''00ffee'', rec_name := ''Bravo'',
     rec_device_role := 1\<rparr>"

text \<open>The node that \<^verbatim>\<open>get_den_repeaters\<close> makes of the example repeater, given its type.\<close>

definition example_repeater_node :: "NodeType \<Rightarrow> string Node" where
  "example_repeater_node type = \<lparr>public_key = ''AB12'', name = ''Ridge'',
     latitude = Some ''39.7392'', longitude = Some ''-104.9903'', node_type = type,
     is_observer = False,
     contact = Some ''meshcore://contact/add?name=Ridge&public_key=AB12&type=2'',
     created_at = 1700000000, last_heard = 1771377540\<rparr>"

section \<open>Properties\<close>

subsection \<open>Upper-casing\<close>

lemma upper_char_eq_F: "upper_char c = ''F'' \<longleftrightarrow> c = CHR ''f'' \<or> c = CHR ''F''"
  by (simp add: upper_char_def lower_letters_def upper_letters_def)

lemma upper_char_eq_0: "upper_char c = ''0'' \<longleftrightarrow> c = CHR ''0''"
  by (simp add: upper_char_def lower_letters_def upper_letters_def)

lemma upper_char_eq_A: "upper_char c = ''A'' \<longleftrightarrow> c = CHR ''a'' \<or> c = CHR ''A''"
  by (simp add: upper_char_def lower_letters_def upper_letters_def)

lemma upper_char_shape: "upper_char c = ''SS'' \<or> (\<exists>u. upper_char c = [u])"
  by (simp add: upper_char_def split: option.splits)

lemma upper_char_not_wide:
  "upper_char c \<noteq> ''FF''" "upper_char c \<noteq> ''00''" "upper_char c \<noteq> []"
  using upper_char_shape [of c] by auto

lemma upper_pair:
  "upper_char a @ upper_char b = [x, y] \<longleftrightarrow> upper_char a = [x] \<and> upper_char b = [y]"
  using upper_char_shape [of a] upper_char_shape [of b] by auto

subsection \<open>The reserved identifier predicate\<close>

lemma is_reserved_chars:
  "is_reserved_public_key_id s \<longleftrightarrow>
     (\<exists>r. s = CHR ''0'' # CHR ''0'' # r) \<or>
     (\<exists>a b r. s = a # b # r \<and> a \<in> {CHR ''f'', CHR ''F''} \<and> b \<in> {CHR ''f'', CHR ''F''}) \<or>
     (\<exists>a r. s = a # r \<and> a \<in> {CHR ''a'', CHR ''A''})"
proof (cases s)
  case Nil
  then show ?thesis
    by (simp add: is_reserved_public_key_id_def upper_def)
next
  case outer: (Cons a r)
  show ?thesis
  proof (cases r)
    case Nil
    with outer show ?thesis
      by (simp add: is_reserved_public_key_id_def upper_def upper_char_eq_A upper_char_not_wide)
  next
    case (Cons b r')
    with outer show ?thesis
      by (simp add: is_reserved_public_key_id_def upper_def upper_char_eq_F
            upper_char_eq_0 upper_char_eq_A numeral_2_eq_2 upper_pair)
  qed
qed

text \<open>
  Claim C8.  The reserved short-identifier predicate holds of an identifier exactly
  when its first two characters upper-case to \<^verbatim>\<open>00\<close> or \<^verbatim>\<open>FF\<close>, or its first character
  upper-cases to \<^verbatim>\<open>A\<close>; spelled out on characters: the identifier starts with
  \<^verbatim>\<open>00\<close>, with two letters each \<^verbatim>\<open>f\<close> or \<^verbatim>\<open>F\<close>, or with \<^verbatim>\<open>a\<close> or \<^verbatim>\<open>A\<close>.  It holds of
  \<^verbatim>\<open>00AB\<close> and of \<^verbatim>\<open>A1\<close>, and not of \<^verbatim>\<open>BCDE\<close>.
\<close>

theorem reserved_public_key_id_characterisation:
  "(is_reserved_public_key_id s \<longleftrightarrow>
      upper (take 2 s) = ''00'' \<or> upper (take 2 s) = ''FF'' \<or> upper (take 1 s) = ''A'')
   \<and> (is_reserved_public_key_id s \<longleftrightarrow>
      (\<exists>r. s = CHR ''0'' # CHR ''0'' # r) \<or>
      (\<exists>a b r. s = a # b # r \<and> a \<in> {CHR ''f'', CHR ''F''} \<and> b \<in> {CHR ''f'', CHR ''F''}) \<or>
      (\<exists>a r. s = a # r \<and> a \<in> {CHR ''a'', CHR ''A''}))
   \<and> is_reserved_public_key_id ''00AB''
   \<and> is_reserved_public_key_id ''A1''
   \<and> \<not> is_reserved_public_key_id ''BCDE''"
proof -
  have "is_reserved_public_key_id s \<longleftrightarrow>
      upper (take 2 s) = ''00'' \<or> upper (take 2 s) = ''FF'' \<or> upper (take 1 s) = ''A''"
    by (simp add: is_reserved_public_key_id_def)
  moreover have "is_reserved_public_key_id ''00AB''"
    by code_simp
  moreover have "is_reserved_public_key_id ''A1''"
    by code_simp
  moreover have "\<not> is_reserved_public_key_id ''BCDE''"
    by code_simp
  ultimately show ?thesis
    using is_reserved_chars [of s] by blast
qed

subsection \<open>Device roles\<close>

lemma LetsMeshNodeRole_by_value_unknown:
  "role \<notin> {1, 2, 3} \<Longrightarrow>
     LetsMeshNodeRole_by_value role = Inl (ValueError (str_int role @ '' is not a valid LetsMeshNodeRole''))"
  by (simp add: LetsMeshNodeRole_by_value_def)

lemma LetsMeshNodeRole_by_value_known:
  "LetsMeshNodeRole_by_value (LetsMeshNodeRole_value r) = Inr r"
  by (cases r) (simp_all add: LetsMeshNodeRole_by_value_def)

lemma LetsMeshNode_validate_unknown:
  "rec_device_role item \<notin> {1, 2, 3} \<Longrightarrow> LetsMeshNode_validate item = Inl ValidationError"
  by (simp add: LetsMeshNode_validate_def LetsMeshNodeRole_by_value_unknown)

lemma LetsMeshNode_validate_cases:
  "LetsMeshNode_validate item = Inl ValidationError \<or> (\<exists>node. LetsMeshNode_validate item = Inr node)"
  by (simp add: LetsMeshNode_validate_def split: sum.splits)

lemma get_letsmesh_nodes_unknown:
  assumes "bad \<in> set items" "rec_device_role bad \<notin> {1, 2, 3}"
  shows "get_letsmesh_nodes items = Inl ValidationError"
  unfolding get_letsmesh_nodes_def using assms
proof (induction items)
  case Nil
  then show ?case by simp
next
  case (Cons item items)
  show ?case
  proof (cases "LetsMeshNode_validate item")
    case (Inl e)
    with LetsMeshNode_validate_cases [of item] have "e = ValidationError" by auto
    with Inl show ?thesis by simp
  next
    case (Inr node)
    with Cons.prems LetsMeshNode_validate_unknown [of item] have "bad \<in> set items"
      by auto
    with Cons.IH Cons.prems(2) have "collect LetsMeshNode_validate items = Inl ValidationError"
      by simp
    with Inr show ?thesis by simp
  qed
qed

lemma get_letsmesh_nodes_known:
  assumes "\<forall>item \<in> set items. rec_device_role item \<in> {1, 2, 3}"
  shows "\<exists>nodes. get_letsmesh_nodes items = Inr nodes
           \<and> map (\<lambda>node. LetsMeshNodeRole_value (lm_device_role node)) nodes
               = map rec_device_role items"
  unfolding get_letsmesh_nodes_def using assms
proof (induction items)
  case Nil
  then show ?case by simp
next
  case (Cons item items)
  then obtain nodes where n: "collect LetsMeshNode_validate items = Inr nodes"
    "map (\<lambda>node. LetsMeshNodeRole_value (lm_device_role node)) nodes = map rec_device_role items"
    by auto
  from Cons.prems have "rec_device_role item \<in> {1, 2, 3}" by simp
  then have "\<exists>node. LetsMeshNode_validate item = Inr node
      \<and> LetsMeshNodeRole_value (lm_device_role node) = rec_device_role item"
    by (auto simp: LetsMeshNode_validate_def LetsMeshNodeRole_by_value_def)
  then obtain node where "LetsMeshNode_validate item = Inr node"
    "LetsMeshNodeRole_value (lm_device_role node) = rec_device_role item" by blast
  with n show ?case by simp
qed

text \<open>
  Claim C9.  An integer outside 1, 2, 3 is converted neither to a
  \<^verbatim>\<open>LetsMeshNodeRole\<close> nor to a \<^verbatim>\<open>NodeType\<close>: both \<^verbatim>\<open>from_int\<close> raise
  \<^verbatim>\<open>ValueError\<close>.  On 1, 2, 3 both return the member with that value, and
  \<^verbatim>\<open>to_node_type\<close> maps every role to a node type, Companion to Companion, Repeater to
  Repeater, Room to RoomServer, never reaching its \<^verbatim>\<open>raise\<close>.  An item of Provider B's
  response whose role is outside 1, 2, 3 fails validation, and with such an item
  anywhere in the response \<^verbatim>\<open>_get_letsmesh_nodes\<close>, \<^verbatim>\<open>get_den_repeaters\<close> and
  \<^verbatim>\<open>get_den_companions\<close> end with the validation error and return no nodes.  When
  every role is 1, 2 or 3 the response is read into nodes with those roles.
\<close>

theorem unknown_device_role_is_rejected:
  "(role \<notin> {1, 2, 3} \<longrightarrow>
      LetsMeshNodeRole_from_int role = Inl (ValueError (''Unknown device role: '' @ str_int role)) \<and>
      NodeType_from_int role = Inl (ValueError (''Unknown device role: '' @ str_int role)))
   \<and> (known \<in> {1, 2, 3} \<longrightarrow>
      (\<exists>r. LetsMeshNodeRole_from_int known = Inr r \<and> LetsMeshNodeRole_value r = known) \<and>
      (\<exists>t. NodeType_from_int known = Inr t \<and> NodeType_value t = known))
   \<and> LetsMeshNodeRole_from_int (LetsMeshNodeRole_value r) = Inr r
   \<and> NodeType_from_int (NodeType_value t) = Inr t
   \<and> to_node_type r =
        Inr (case r of LM_COMPANION \<Rightarrow> COMPANION | LM_REPEATER \<Rightarrow> REPEATER | LM_ROOM \<Rightarrow> ROOM_SERVER)
   \<and> (bad \<in> set items \<and> rec_device_role bad \<notin> {1, 2, 3} \<longrightarrow>
        LetsMeshNode_validate bad = Inl ValidationError
        \<and> get_letsmesh_nodes items = Inl ValidationError
        \<and> get_den_repeaters quote max_str_digits meshmapper_repeaters items = Inl ValidationError
        \<and> get_den_companions quote utcoffset items = Inl ValidationError)
   \<and> ((\<forall>item \<in> set items. rec_device_role item \<in> {1, 2, 3}) \<longrightarrow>
        (\<exists>nodes. get_letsmesh_nodes items = Inr nodes
           \<and> map (\<lambda>node. LetsMeshNodeRole_value (lm_device_role node)) nodes
               = map rec_device_role items))"
proof -
  have a: "LetsMeshNodeRole_from_int (LetsMeshNodeRole_value r) = Inr r"
    by (cases r) (simp_all add: LetsMeshNodeRole_from_int_def)
  have b: "NodeType_from_int (NodeType_value t) = Inr t"
    by (cases t) (simp_all add: NodeType_from_int_def)
  have c: "to_node_type r =
        Inr (case r of LM_COMPANION \<Rightarrow> COMPANION | LM_REPEATER \<Rightarrow> REPEATER | LM_ROOM \<Rightarrow> ROOM_SERVER)"
    by (cases r) (simp_all add: to_node_type_def)
  have d: "role \<notin> {1, 2, 3} \<longrightarrow>
      LetsMeshNodeRole_from_int role = Inl (ValueError (''Unknown device role: '' @ str_int role)) \<and>
      NodeType_from_int role = Inl (ValueError (''Unknown device role: '' @ str_int role))"
    by (simp add: LetsMeshNodeRole_from_int_def NodeType_from_int_def)
  have e: "known \<in> {1, 2, 3} \<longrightarrow>
      (\<exists>r. LetsMeshNodeRole_from_int known = Inr r \<and> LetsMeshNodeRole_value r = known) \<and>
      (\<exists>t. NodeType_from_int known = Inr t \<and> NodeType_value t = known)"
    by (auto simp: LetsMeshNodeRole_from_int_def NodeType_from_int_def)
  have f: "bad \<in> set items \<and> rec_device_role bad \<notin> {1, 2, 3} \<longrightarrow>
        LetsMeshNode_validate bad = Inl ValidationError
        \<and> get_letsmesh_nodes items = Inl ValidationError
        \<and> get_den_repeaters quote max_str_digits meshmapper_repeaters items = Inl ValidationError
        \<and> get_den_companions quote utcoffset items = Inl ValidationError"
  proof
    assume h: "bad \<in> set items \<and> rec_device_role bad \<notin> {1, 2, 3}"
    then have v: "LetsMeshNode_validate bad = Inl ValidationError"
      by (simp add: LetsMeshNode_validate_unknown)
    from h have n: "get_letsmesh_nodes items = Inl ValidationError"
      by (intro get_letsmesh_nodes_unknown [of bad]) simp_all
    from v n show "LetsMeshNode_validate bad = Inl ValidationError
        \<and> get_letsmesh_nodes items = Inl ValidationError
        \<and> get_den_repeaters quote max_str_digits meshmapper_repeaters items = Inl ValidationError
        \<and> get_den_companions quote utcoffset items = Inl ValidationError"
      by (simp add: get_den_repeaters_def get_den_companions_def)
  qed
  have g: "(\<forall>item \<in> set items. rec_device_role item \<in> {1, 2, 3}) \<longrightarrow>
        (\<exists>nodes. get_letsmesh_nodes items = Inr nodes
           \<and> map (\<lambda>node. LetsMeshNodeRole_value (lm_device_role node)) nodes
               = map rec_device_role items)"
    using get_letsmesh_nodes_known [of items] by blast
  from d e a b c f g show ?thesis by (intro conjI)
qed

theorem unknown_device_role_is_rejected_witness:
  "(4::int) \<notin> {1, 2, 3}
   \<and> LetsMeshNodeRole_from_int 4 = Inl (ValueError ''Unknown device role: 4'')
   \<and> NodeType_from_int 4 = Inl (ValueError ''Unknown device role: 4'')
   \<and> (3::int) \<in> {1, 2, 3}
   \<and> LetsMeshNodeRole_from_int 3 = Inr LM_ROOM
   \<and> NodeType_from_int 3 = Inr COMPANION
   \<and> to_node_type LM_ROOM = Inr ROOM_SERVER
   \<and> example_unknown_role \<in> set [example_companion, example_unknown_role]
   \<and> rec_device_role example_unknown_role = 4
   \<and> get_letsmesh_nodes [example_companion, example_unknown_role] = Inl ValidationError
   \<and> get_den_repeaters example_quote 4300 [example_repeater]
        [example_companion, example_unknown_role] = Inl ValidationError
   \<and> get_den_companions example_quote (\<lambda>t. 0) [example_companion, example_unknown_role]
       = Inl ValidationError
   \<and> map rec_device_role [example_companion, example_room] = [1, 3]
   \<and> map_sum id (map lm_device_role) (get_letsmesh_nodes [example_companion, example_room])
       = Inr [LM_COMPANION, LM_ROOM]"
proof -
  have m: "example_unknown_role \<in> set [example_companion, example_unknown_role]"
    by simp
  have u: "rec_device_role example_unknown_role = 4"
    by (simp add: example_unknown_role_def)
  have k: "map rec_device_role [example_companion, example_room] = [1, 3]"
    by (simp add: example_companion_def example_room_def)
  have ok: "map_sum id (map lm_device_role) (get_letsmesh_nodes [example_companion, example_room])
       = Inr [LM_COMPANION, LM_ROOM]"
    by code_simp
  from unknown_device_role_is_rejected
         [of 4 3 LM_ROOM COMPANION example_unknown_role
            "[example_companion, example_unknown_role]" example_quote 4300 "[example_repeater]"
            "\<lambda>t. 0"]
    m u k ok
  show ?thesis
    by (simp add: LetsMeshNodeRole_from_int_def NodeType_from_int_def str_int_def
          str_nat.simps digit_char_def)
qed

subsection \<open>The fingerprint string\<close>

text \<open>
  The fingerprint string of a node determines its name, type, location and observer
  flag, given the upper-cased public key: the four fields after the key identifier
  contain no colon, and two key identifiers cut from keys that are equal in upper
  case cannot differ by a shift across a colon.
\<close>

lemma split_last_colon:
  assumes "CHR '':'' \<notin> set b" "CHR '':'' \<notin> set b'"
  shows "r @ CHR '':'' # b = r' @ CHR '':'' # b' \<longleftrightarrow> r = r' \<and> b = b'"
proof
  assume eq: "r @ CHR '':'' # b = r' @ CHR '':'' # b'"
  then obtain us where us:
    "(r = r' @ us \<and> us @ CHR '':'' # b = CHR '':'' # b') \<or>
     (r @ us = r' \<and> CHR '':'' # b = us @ CHR '':'' # b')"
    unfolding append_eq_append_conv2 by blast
  have "us = []"
  proof (cases us)
    case (Cons x us')
    from us show ?thesis
    proof
      assume "r = r' @ us \<and> us @ CHR '':'' # b = CHR '':'' # b'"
      with Cons have "b' = us' @ CHR '':'' # b" by simp
      with assms(2) show ?thesis by simp
    next
      assume "r @ us = r' \<and> CHR '':'' # b = us @ CHR '':'' # b'"
      with Cons have "b = us' @ CHR '':'' # b'" by simp
      with assms(1) show ?thesis by simp
    qed
  qed simp
  with us show "r = r' \<and> b = b'" by auto
qed simp

lemma peel_fields:
  assumes "CHR '':'' \<notin> set t" "CHR '':'' \<notin> set t'" "CHR '':'' \<notin> set a" "CHR '':'' \<notin> set a'"
    "CHR '':'' \<notin> set b" "CHR '':'' \<notin> set b'" "CHR '':'' \<notin> set c" "CHR '':'' \<notin> set c'"
    and eq: "p @ '':'' @ t @ '':'' @ a @ '':'' @ b @ '':'' @ c
           = p' @ '':'' @ t' @ '':'' @ a' @ '':'' @ b' @ '':'' @ c'"
  shows "p = p' \<and> t = t' \<and> a = a' \<and> b = b' \<and> c = c'"
proof -
  from eq have "(p @ CHR '':'' # t @ CHR '':'' # a @ CHR '':'' # b) @ CHR '':'' # c
           = (p' @ CHR '':'' # t' @ CHR '':'' # a' @ CHR '':'' # b') @ CHR '':'' # c'"
    by simp
  then have 1: "p @ CHR '':'' # t @ CHR '':'' # a @ CHR '':'' # b
           = p' @ CHR '':'' # t' @ CHR '':'' # a' @ CHR '':'' # b'" and c: "c = c'"
    unfolding split_last_colon [OF assms(7,8)] by blast+
  from 1 have "(p @ CHR '':'' # t @ CHR '':'' # a) @ CHR '':'' # b
           = (p' @ CHR '':'' # t' @ CHR '':'' # a') @ CHR '':'' # b'"
    by simp
  then have 2: "p @ CHR '':'' # t @ CHR '':'' # a = p' @ CHR '':'' # t' @ CHR '':'' # a'"
    and b: "b = b'"
    unfolding split_last_colon [OF assms(5,6)] by blast+
  from 2 have "(p @ CHR '':'' # t) @ CHR '':'' # a = (p' @ CHR '':'' # t') @ CHR '':'' # a'"
    by simp
  then have 3: "p @ CHR '':'' # t = p' @ CHR '':'' # t'" and a: "a = a'"
    unfolding split_last_colon [OF assms(3,4)] by blast+
  from 3 have "p = p' \<and> t = t'"
    unfolding split_last_colon [OF assms(1,2)] .
  with a b c show ?thesis by simp
qed


lemma upper_append: "upper (xs @ ys) = upper xs @ upper ys"
  by (simp add: upper_def)

lemma upper_take_prefix: "prefix (upper (take n s)) (upper s)"
proof -
  have "upper s = upper (take n s) @ upper (drop n s)"
    by (simp add: upper_append [symmetric])
  then show ?thesis by (simp add: prefix_def)
qed

lemma upper_char_weight:
  "1 \<le> length (upper_char c)
   \<and> length (upper_char c) + length (filter (\<lambda>x. x \<noteq> CHR ''S'') (upper_char c)) \<le> 2"
  using upper_char_shape [of c] by auto

lemma length_upper: "length s \<le> length (upper s)"
proof (induction s)
  case Nil
  then show ?case by (simp add: upper_def)
next
  case (Cons c s)
  have "upper (c # s) = upper_char c @ upper s" by (simp add: upper_def)
  with Cons upper_char_weight [of c] show ?case by simp
qed

lemma upper_weight:
  "length (upper s) + length (filter (\<lambda>x. x \<noteq> CHR ''S'') (upper s)) \<le> 2 * length s"
proof (induction s)
  case Nil
  then show ?case by (simp add: upper_def)
next
  case (Cons c s)
  have "upper (c # s) = upper_char c @ upper s" by (simp add: upper_def)
  with Cons upper_char_weight [of c] show ?case by simp
qed

lemma period_count:
  assumes "xs @ ys = ys @ zs" "xs \<noteq> []" "1 \<le> length (filter P xs)"
  shows "length ys div length xs \<le> length (filter P ys)"
  using assms
proof (induction "length ys" arbitrary: ys zs rule: less_induct)
  case less
  show ?case
  proof (cases "length ys < length xs")
    case True
    then show ?thesis by simp
  next
    case False
    then have le: "length xs \<le> length ys" by simp
    from less.prems(1) have "take (length xs) (xs @ ys) = take (length xs) (ys @ zs)" by simp
    with le have t: "xs = take (length xs) ys" by simp
    define ys' where "ys' = drop (length xs) ys"
    have ys: "ys = xs @ ys'" using t ys'_def by (metis append_take_drop_id)
    from less.prems(1) have "xs @ xs @ ys' = xs @ ys' @ zs" unfolding ys by simp
    then have eq': "xs @ ys' = ys' @ zs" by simp
    have shorter: "length ys' < length ys" using ys less.prems(2) by simp
    have ih: "length ys' div length xs \<le> length (filter P ys')"
      using less.hyps [OF shorter eq' less.prems(2) less.prems(3)] .
    have "length ys div length xs = Suc (length ys' div length xs)"
      using ys less.prems(2) by (simp add: div_add_self1)
    also have "\<dots> \<le> length (filter P xs) + length (filter P ys')"
      using ih less.prems(3) by simp
    also have "\<dots> = length (filter P ys)" unfolding ys by simp
    finally show ?thesis .
  qed
qed


lemma shifted_key_id_impossible:
  assumes U: "upper pk1 = upper pk2"
    and shift: "upper (take 4 pk2) = (q @ [CHR '':'']) @ upper (take 4 pk1)"
  shows False
proof -
  define xs where "xs = q @ [CHR '':'']"
  define K1 where "K1 = upper (take 4 pk1)"
  define K2 where "K2 = upper (take 4 pk2)"
  define p where "p = length xs"
  define k where "k = length K1"
  have K2: "K2 = xs @ K1" using shift by (simp add: xs_def K1_def K2_def)
  have p1: "1 \<le> p" by (simp add: p_def xs_def)
  have xs_ne: "xs \<noteq> []" by (simp add: xs_def)
  have len2: "length K2 = p + k" by (simp add: K2 p_def k_def)
  have pre1: "prefix K1 (upper pk2)" unfolding K1_def U [symmetric] by (rule upper_take_prefix)
  have pre2: "prefix K2 (upper pk2)" unfolding K2_def by (rule upper_take_prefix)
  have "prefix K1 K2"
    using pre1 pre2 by (rule prefix_length_prefix) (simp add: len2 k_def)
  then obtain zs where "K2 = K1 @ zs" by (auto simp: prefix_def)
  with K2 have comm: "xs @ K1 = K1 @ zs" by simp
  have colon: "1 \<le> length (filter (\<lambda>x. x \<noteq> CHR ''S'') xs)"
    by (simp add: xs_def)
  have cnt: "k div p \<le> length (filter (\<lambda>x. x \<noteq> CHR ''S'') K1)"
    unfolding k_def p_def using comm xs_ne colon by (rule period_count)
  have k4: "4 \<le> k"
  proof (rule ccontr)
    assume "\<not> 4 \<le> k"
    then have "length (upper (take 4 pk1)) < 4" by (simp add: k_def K1_def)
    with length_upper [of "take 4 pk1"] have "length (take 4 pk1) < 4" by simp
    then have "take 4 pk1 = pk1" by simp
    then have "K1 = upper pk2" by (simp add: K1_def U)
    with pre2 have "length K2 \<le> length K1" by (simp add: prefix_length_le)
    with len2 p1 show False by (simp add: k_def)
  qed
  have "length K2 + length (filter (\<lambda>x. x \<noteq> CHR ''S'') K2) \<le> 2 * length (take 4 pk2)"
    unfolding K2_def by (rule upper_weight)
  then have "length K2 + length (filter (\<lambda>x. x \<noteq> CHR ''S'') K2) \<le> 8" by simp
  moreover have "length (filter (\<lambda>x. x \<noteq> CHR ''S'') K2)
      = length (filter (\<lambda>x. x \<noteq> CHR ''S'') xs) + length (filter (\<lambda>x. x \<noteq> CHR ''S'') K1)"
    by (simp add: K2)
  ultimately have bound: "p + k + 1 + k div p \<le> 8"
    using len2 colon cnt by linarith
  with k4 have "p \<le> 3" by linarith
  with p1 consider "p = 1" | "p = 2" | "p = 3" by linarith
  then show False
  proof cases
    case 1
    with bound k4 show False by simp
  next
    case 2
    have "4 div 2 \<le> k div 2" using k4 by (rule div_le_mono)
    with bound k4 2 show False by simp
  next
    case 3
    have "4 div 3 \<le> k div 3" using k4 by (rule div_le_mono)
    with bound k4 3 show False by simp
  qed
qed

lemma name_of_name_and_key_id:
  assumes U: "upper pk1 = upper pk2"
    and eq: "n1 @ CHR '':'' # upper (take 4 pk1) = n2 @ CHR '':'' # upper (take 4 pk2)"
  shows "n1 = n2"
proof -
  from eq obtain us where us:
    "(n1 = n2 @ us \<and> us @ CHR '':'' # upper (take 4 pk1) = CHR '':'' # upper (take 4 pk2)) \<or>
     (n1 @ us = n2 \<and> CHR '':'' # upper (take 4 pk1) = us @ CHR '':'' # upper (take 4 pk2))"
    unfolding append_eq_append_conv2 by blast
  have "us = []"
  proof (cases us)
    case (Cons x q)
    from us show ?thesis
    proof
      assume "n1 = n2 @ us \<and> us @ CHR '':'' # upper (take 4 pk1) = CHR '':'' # upper (take 4 pk2)"
      with Cons have "upper (take 4 pk2) = (q @ [CHR '':'']) @ upper (take 4 pk1)" by simp
      with U show ?thesis by (rule shifted_key_id_impossible [THEN FalseE])
    next
      assume "n1 @ us = n2 \<and> CHR '':'' # upper (take 4 pk1) = us @ CHR '':'' # upper (take 4 pk2)"
      with Cons have "upper (take 4 pk1) = (q @ [CHR '':'']) @ upper (take 4 pk2)" by simp
      with U [symmetric] show ?thesis by (rule shifted_key_id_impossible [THEN FalseE])
    qed
  qed simp
  with us show ?thesis by auto
qed


lemma str_int_small: "str_int 1 = ''1''" "str_int 2 = ''2''" "str_int 3 = ''3''"
  by (simp_all add: str_int_def str_nat.simps digit_char_def)

lemma str_node_type_colon: "CHR '':'' \<notin> set (str_int (NodeType_value t))"
  by (cases t) (simp_all add: str_int_small)

lemma str_node_type_inj:
  "str_int (NodeType_value t) = str_int (NodeType_value t') \<Longrightarrow> t = t'"
  by (cases t; cases t') (simp_all add: str_int_small)

lemma str_bool_colon: "CHR '':'' \<notin> set (str_bool b)"
  by (simp add: str_bool_def)

lemma str_bool_inj: "str_bool b = str_bool b' \<Longrightarrow> b = b'"
  by (cases b; cases b') (simp_all add: str_bool_def)

lemma str_optional_float_colon:
  assumes "\<forall>v \<in> set_option x. CHR '':'' \<notin> set (float_str v)"
  shows "CHR '':'' \<notin> set (str_optional_float float_str x)"
  using assms by (cases x) (simp_all add: str_optional_float_def)

lemma str_optional_float_inj:
  assumes "\<forall>v \<in> set_option x \<union> set_option y. float_str v \<noteq> ''None''"
    and "inj_on float_str (set_option x \<union> set_option y)"
    and "str_optional_float float_str x = str_optional_float float_str y"
  shows "x = y"
proof (cases x)
  case None
  with assms(1,3) show ?thesis
    by (cases y) (auto simp: str_optional_float_def)
next
  case (Some v)
  show ?thesis
  proof (cases y)
    case None
    with Some assms(1,3) show ?thesis by (auto simp: str_optional_float_def)
  next
    case (Some w)
    with \<open>x = Some v\<close> assms(3) have "float_str v = float_str w"
      by (simp add: str_optional_float_def)
    with assms(2) \<open>x = Some v\<close> Some have "v = w" by (auto dest: inj_onD)
    with \<open>x = Some v\<close> Some show ?thesis by simp
  qed
qed

lemma hash_input_fields:
  fixes a b :: "'f Node"
  defines "floats \<equiv> set_option (latitude a) \<union> set_option (longitude a)
                     \<union> set_option (latitude b) \<union> set_option (longitude b)"
  assumes same: "are_same_node a b"
    and printed: "\<forall>v \<in> floats. CHR '':'' \<notin> set (float_str v) \<and> float_str v \<noteq> ''None''"
    and inj: "inj_on float_str floats"
    and eq: "Node_hash_input float_str a = Node_hash_input float_str b"
  shows "name a = name b \<and> node_type a = node_type b \<and> latitude a = latitude b
         \<and> longitude a = longitude b \<and> is_observer a = is_observer b"
proof -
  have U: "upper (public_key a) = upper (public_key b)"
    using same by (simp add: are_same_node_def split: if_splits)
  have c_lat_a: "CHR '':'' \<notin> set (str_optional_float float_str (latitude a))"
    and c_lat_b: "CHR '':'' \<notin> set (str_optional_float float_str (latitude b))"
    and c_lon_a: "CHR '':'' \<notin> set (str_optional_float float_str (longitude a))"
    and c_lon_b: "CHR '':'' \<notin> set (str_optional_float float_str (longitude b))"
    using printed by (auto intro!: str_optional_float_colon simp: floats_def)
  from eq have "(name a @ '':'' @ public_key_id a) @ '':'' @
       str_int (NodeType_value (node_type a)) @ '':'' @
       str_optional_float float_str (latitude a) @ '':'' @
       str_optional_float float_str (longitude a) @ '':'' @ str_bool (is_observer a)
     = (name b @ '':'' @ public_key_id b) @ '':'' @
       str_int (NodeType_value (node_type b)) @ '':'' @
       str_optional_float float_str (latitude b) @ '':'' @
       str_optional_float float_str (longitude b) @ '':'' @ str_bool (is_observer b)"
    by (simp add: Node_hash_input_def)
  from peel_fields [OF str_node_type_colon str_node_type_colon c_lat_a c_lat_b c_lon_a c_lon_b
      str_bool_colon str_bool_colon this]
  have nk: "name a @ '':'' @ public_key_id a = name b @ '':'' @ public_key_id b"
    and t: "str_int (NodeType_value (node_type a)) = str_int (NodeType_value (node_type b))"
    and lat: "str_optional_float float_str (latitude a) = str_optional_float float_str (latitude b)"
    and lon: "str_optional_float float_str (longitude a) = str_optional_float float_str (longitude b)"
    and obs: "str_bool (is_observer a) = str_bool (is_observer b)"
    by blast+
  from nk have "name a @ CHR '':'' # upper (take 4 (public_key a))
      = name b @ CHR '':'' # upper (take 4 (public_key b))"
    by (simp add: public_key_id_def public_key_id_4_char_def)
  with U have n: "name a = name b" by (rule name_of_name_and_key_id)
  have ty: "node_type a = node_type b" using t by (rule str_node_type_inj)
  have ob: "is_observer a = is_observer b" using obs by (rule str_bool_inj)
  have la: "latitude a = latitude b"
  proof (rule str_optional_float_inj [OF _ _ lat])
    show "\<forall>v \<in> set_option (latitude a) \<union> set_option (latitude b). float_str v \<noteq> ''None''"
      using printed by (auto simp: floats_def)
    show "inj_on float_str (set_option (latitude a) \<union> set_option (latitude b))"
      using inj by (rule inj_on_subset) (auto simp: floats_def)
  qed
  have lo: "longitude a = longitude b"
  proof (rule str_optional_float_inj [OF _ _ lon])
    show "\<forall>v \<in> set_option (longitude a) \<union> set_option (longitude b). float_str v \<noteq> ''None''"
      using printed by (auto simp: floats_def)
    show "inj_on float_str (set_option (longitude a) \<union> set_option (longitude b))"
      using inj by (rule inj_on_subset) (auto simp: floats_def)
  qed
  from n ty la lo ob show ?thesis by simp
qed


subsection \<open>Reconciliation\<close>

lemma latest_Cons:
  "latest H (x # xs) k = (if k \<in> H ` set xs then latest H xs k else if H x = k then x else latest H [] k)"
  by (auto simp: latest_def filter_empty_conv)

lemma latest_in:
  assumes "k \<in> H ` set xs"
  shows "latest H xs k \<in> set xs \<and> H (latest H xs k) = k"
proof -
  from assms have ne: "filter (\<lambda>n. H n = k) xs \<noteq> []"
    by (auto simp: filter_empty_conv)
  then have "last (filter (\<lambda>n. H n = k) xs) \<in> set (filter (\<lambda>n. H n = k) xs)"
    by (rule last_in_set)
  then show ?thesis by (simp add: latest_def)
qed

lemma index_nodes_fold:
  "index_nodes H xs (hm, al) =
     (fold (\<lambda>n. AList.update (H n) (H n)) xs hm, fold (\<lambda>n. AList.update (H n) n) xs al)"
  by (induction xs arbitrary: hm al) (simp_all add: Let_def)

lemma hash_map_lookup:
  "map_of (fold (\<lambda>n. AList.update (H n) (H n)) xs hm) k =
     (if k \<in> H ` set xs then Some k else map_of hm k)"
  by (induction xs arbitrary: hm) (auto simp: update_conv')

lemma hash_map_distinct:
  "distinct (map fst hm) \<Longrightarrow> distinct (map fst (fold (\<lambda>n. AList.update (H n) (H n)) xs hm))"
  by (induction xs arbitrary: hm) (simp_all add: distinct_update)

lemma all_nodes_lookup:
  "map_of (fold (\<lambda>n. AList.update (H n) n) xs al) k =
     (if k \<in> H ` set xs then Some (latest H xs k) else map_of al k)"
proof (induction xs arbitrary: al)
  case Nil
  then show ?case by simp
next
  case (Cons x xs)
  show ?case
    by (simp add: Cons.IH update_conv' latest_Cons)
qed

lemma hash_map_set:
  "set (fold (\<lambda>n. AList.update (H n) (H n)) xs []) = (\<lambda>k. (k, k)) ` H ` set xs"
proof -
  let ?hm = "fold (\<lambda>n. AList.update (H n) (H n)) xs []"
  have d: "distinct (map fst ?hm)"
    by (rule hash_map_distinct) simp
  have "(k, v) \<in> set ?hm \<longleftrightarrow> k \<in> H ` set xs \<and> v = k" for k v
    using map_of_eq_Some_iff [OF d, of k v] hash_map_lookup [of H xs "[]" k]
    by (auto split: if_splits)
  then show ?thesis by auto
qed

lemma lookup_nodes_Inr:
  "(\<And>p. p \<in> set ps \<Longrightarrow> map_of al (fst p) = Some (g (fst p)))
   \<Longrightarrow> lookup_nodes al ps = Inr (map g (map fst ps))"
proof (induction ps)
  case Nil
  then show ?case by simp
next
  case (Cons p ps)
  obtain h v where p: "p = (h, v)" by (cases p)
  have "map_of al h = Some (g h)" using Cons.prems [of p] p by simp
  moreover have "lookup_nodes al ps = Inr (map g (map fst ps))"
    using Cons by simp
  ultimately show ?case by (simp add: p dict_get_def)
qed

lemma diag_inter:
  "fst ` {x \<in> (\<lambda>k. (k, k)) ` A. x \<in> (\<lambda>k. (k, k)) ` B} = A \<inter> B"
proof -
  have "{x \<in> (\<lambda>k. (k, k)) ` A. x \<in> (\<lambda>k. (k, k)) ` B} = (\<lambda>k. (k, k)) ` (A \<inter> B)"
    by auto
  then show ?thesis by (simp add: image_image)
qed

lemma diag_diff:
  "fst ` {x \<in> (\<lambda>k. (k, k)) ` A. x \<notin> (\<lambda>k. (k, k)) ` B} = A - B"
proof -
  have "{x \<in> (\<lambda>k. (k, k)) ` A. x \<notin> (\<lambda>k. (k, k)) ` B} = (\<lambda>k. (k, k)) ` (A - B)"
    by auto
  then show ?thesis by (simp add: image_image)
qed

lemma filter_diff_result:
  fixes H :: "'n \<Rightarrow> int"
  shows "\<exists>ks_new ks_dup ks_miss.
     filter_diff H existing observed =
       Inr (map (latest H observed) ks_new, map (latest H observed) ks_dup,
            map (latest H existing) ks_miss)
     \<and> distinct ks_new \<and> set ks_new = H ` set observed - H ` set existing
     \<and> distinct ks_dup \<and> set ks_dup = H ` set observed \<inter> H ` set existing
     \<and> distinct ks_miss \<and> set ks_miss = H ` set existing - H ` set observed"
proof -
  let ?hmE = "fold (\<lambda>n. AList.update (H n) (H n)) existing []"
  let ?hmO = "fold (\<lambda>n. AList.update (H n) (H n)) observed []"
  let ?all0 = "fold (\<lambda>n. AList.update (H n) n) existing []"
  let ?all = "fold (\<lambda>n. AList.update (H n) n) observed ?all0"
  let ?new = "filter (\<lambda>x. x \<notin> set ?hmE) ?hmO"
  let ?dup = "filter (\<lambda>x. x \<in> set ?hmE) ?hmO"
  let ?miss = "filter (\<lambda>x. x \<notin> set ?hmO) ?hmE"
  have dE: "distinct (map fst ?hmE)" and dO: "distinct (map fst ?hmO)"
    by (rule hash_map_distinct, simp)+
  have rE: "remdups ?hmE = ?hmE" and rO: "remdups ?hmO = ?hmO"
    using dE dO by (simp_all add: distinct_remdups_id distinct_map)
  have sE: "set ?hmE = (\<lambda>k. (k, k)) ` H ` set existing"
    and sO: "set ?hmO = (\<lambda>k. (k, k)) ` H ` set observed"
    by (rule hash_map_set)+
  have unfold: "filter_diff H existing observed =
     (case lookup_nodes ?all ?new of Inl e \<Rightarrow> Inl e
      | Inr a \<Rightarrow> (case lookup_nodes ?all ?dup of Inl e \<Rightarrow> Inl e
         | Inr b \<Rightarrow> (case lookup_nodes ?all ?miss of Inl e \<Rightarrow> Inl e
            | Inr c \<Rightarrow> Inr (a, b, c))))"
    unfolding filter_diff_def index_nodes_fold Let_def prod.case py_set_def
      set_difference_def set_intersection_def rE rO
    by (rule refl)
  have inO: "fst p \<in> H ` set observed" if "p \<in> set ?hmO" for p
    using that unfolding sO by auto
  have notO: "fst p \<notin> H ` set observed \<and> fst p \<in> H ` set existing"
    if "p \<in> set ?hmE" "p \<notin> set ?hmO" for p
    using that unfolding sO sE by auto
  have allO: "map_of ?all k = Some (latest H observed k)" if "k \<in> H ` set observed" for k
    using that by (simp add: all_nodes_lookup)
  have allE: "map_of ?all k = Some (latest H existing k)"
    if "k \<notin> H ` set observed" "k \<in> H ` set existing" for k
    using that by (simp add: all_nodes_lookup)
  have l1: "lookup_nodes ?all ?new = Inr (map (latest H observed) (map fst ?new))"
    by (rule lookup_nodes_Inr) (simp add: allO inO)
  have l2: "lookup_nodes ?all ?dup = Inr (map (latest H observed) (map fst ?dup))"
    by (rule lookup_nodes_Inr) (simp add: allO inO)
  have l3: "lookup_nodes ?all ?miss = Inr (map (latest H existing) (map fst ?miss))"
    by (rule lookup_nodes_Inr) (simp add: allE notO)
  have "distinct (map fst ?new)" "distinct (map fst ?dup)" "distinct (map fst ?miss)"
    using dE dO by (simp_all add: distinct_map_filter)
  moreover have "set (map fst ?new) = H ` set observed - H ` set existing"
    unfolding set_map set_filter sE sO by (rule diag_diff)
  moreover have "set (map fst ?dup) = H ` set observed \<inter> H ` set existing"
    unfolding set_map set_filter sE sO by (rule diag_inter)
  moreover have "set (map fst ?miss) = H ` set existing - H ` set observed"
    unfolding set_map set_filter sE sO by (rule diag_diff)
  ultimately show ?thesis
    unfolding unfold l1 l2 l3 by (intro exI conjI) (simp_all only: sum.case)
qed

lemma map_hash_latest:
  assumes "set ks \<subseteq> H ` set xs"
  shows "map H (map (latest H xs) ks) = ks"
proof -
  have "H (latest H xs k) = k" if "k \<in> set ks" for k
    using that assms latest_in [of k H xs] by blast
  then show ?thesis
    by (simp add: map_idI)
qed

text \<open>
  Claim C1.  For every pair of lists of nodes, reconciliation returns three lists,
  and the fingerprints of the three lists taken together list every fingerprint of
  the two inputs exactly once: \<open>new\<close> carries the fingerprints that are observed and
  not existing, \<open>dup\<close> those that are both, \<open>miss\<close> those that are existing and not
  observed.
\<close>

theorem reconciliation_partitions_fingerprints:
  "\<exists>new dup miss.
     filter_diff_nodes py_hash float_str existing observed = Inr (new, dup, miss)
     \<and> distinct (map (Node_hash py_hash float_str) (new @ dup @ miss))
     \<and> set (map (Node_hash py_hash float_str) (new @ dup @ miss))
         = Node_hash py_hash float_str ` (set existing \<union> set observed)
     \<and> Node_hash py_hash float_str ` set new
         = Node_hash py_hash float_str ` set observed - Node_hash py_hash float_str ` set existing
     \<and> Node_hash py_hash float_str ` set dup
         = Node_hash py_hash float_str ` set observed \<inter> Node_hash py_hash float_str ` set existing
     \<and> Node_hash py_hash float_str ` set miss
         = Node_hash py_hash float_str ` set existing - Node_hash py_hash float_str ` set observed"
proof -
  define H where "H = Node_hash py_hash float_str"
  obtain ks_new ks_dup ks_miss where
    res: "filter_diff H existing observed =
       Inr (map (latest H observed) ks_new, map (latest H observed) ks_dup,
            map (latest H existing) ks_miss)"
    and dn: "distinct ks_new" and sn: "set ks_new = H ` set observed - H ` set existing"
    and dd: "distinct ks_dup" and sd: "set ks_dup = H ` set observed \<inter> H ` set existing"
    and dm: "distinct ks_miss" and sm: "set ks_miss = H ` set existing - H ` set observed"
    using filter_diff_result [of H existing observed] by (elim exE conjE)
  let ?new = "map (latest H observed) ks_new"
  let ?dup = "map (latest H observed) ks_dup"
  let ?miss = "map (latest H existing) ks_miss"
  have mn: "map H ?new = ks_new"
    by (rule map_hash_latest) (simp add: sn Diff_subset)
  have md: "map H ?dup = ks_dup"
    by (rule map_hash_latest) (simp add: sd)
  have mm: "map H ?miss = ks_miss"
    by (rule map_hash_latest) (simp add: sm Diff_subset)
  have r: "filter_diff_nodes py_hash float_str existing observed = Inr (?new, ?dup, ?miss)"
    using res by (simp add: filter_diff_nodes_def H_def)
  have eq: "map H (?new @ ?dup @ ?miss) = ks_new @ ks_dup @ ks_miss"
    unfolding map_append mn md mm by (rule refl)
  have d: "distinct (map H (?new @ ?dup @ ?miss))"
    unfolding eq using dn dd dm sn sd sm by auto
  have u: "set (map H (?new @ ?dup @ ?miss)) = H ` (set existing \<union> set observed)"
    unfolding eq using sn sd sm by auto
  have i1: "H ` set ?new = H ` set observed - H ` set existing"
    unfolding set_map [symmetric] mn sn by (rule refl)
  have i2: "H ` set ?dup = H ` set observed \<inter> H ` set existing"
    unfolding set_map [symmetric] md sd by (rule refl)
  have i3: "H ` set ?miss = H ` set existing - H ` set observed"
    unfolding set_map [symmetric] mm sm by (rule refl)
  show ?thesis
    unfolding H_def [symmetric]
    by (intro exI conjI) (rule r d u i1 i2 i3)+
qed

lemma latest_inj:
  assumes "inj_on H (set xs)" "n \<in> set xs"
  shows "latest H xs (H n) = n"
proof -
  have "latest H xs (H n) \<in> set xs \<and> H (latest H xs (H n)) = H n"
    using assms(2) by (intro latest_in) simp
  with assms show ?thesis by (auto dest: inj_onD)
qed

lemma latest_unique:
  assumes "n \<in> set xs" "\<And>m. m \<in> set xs \<Longrightarrow> H m = H n \<Longrightarrow> m = n"
  shows "latest H xs (H n) = n"
proof -
  have "latest H xs (H n) \<in> set xs \<and> H (latest H xs (H n)) = H n"
    using assms(1) by (intro latest_in) simp
  then show ?thesis using assms(2) by blast
qed

lemma in_map_latest:
  assumes "n \<in> set (map (latest H xs) ks)" "set ks \<subseteq> H ` set xs"
  shows "H n \<in> set ks \<and> n = latest H xs (H n) \<and> n \<in> set xs"
proof -
  from assms(1) obtain k where k: "k \<in> set ks" "n = latest H xs k" by auto
  with assms(2) have "k \<in> H ` set xs" by blast
  then have "latest H xs k \<in> set xs \<and> H (latest H xs k) = k" by (rule latest_in)
  with k show ?thesis by simp
qed

lemma example_hashes:
  "Node_hash example_hash example_float_str node_alpha = 1"
  "Node_hash example_hash example_float_str node_alpha_renamed = 2"
  "Node_hash example_hash example_float_str node_alpha_later = 1"
  "Node_hash example_hash example_float_str node_bravo = 3"
  by code_simp+

text \<open>
  Claim C6.  For a list \<open>S\<close> in which no two nodes share a fingerprint, reconciling
  \<open>S\<close> against itself returns an empty \<open>new\<close> list, an empty \<open>missing\<close> list and an
  unchanged list with exactly the nodes of \<open>S\<close>, each once.
\<close>

theorem reconcile_with_itself:
  assumes "inj_on (Node_hash py_hash float_str) (set S)"
  shows "\<exists>dup. filter_diff_nodes py_hash float_str S S = Inr ([], dup, [])
           \<and> set dup = set S \<and> distinct dup"
proof -
  define H where "H = Node_hash py_hash float_str"
  have inj: "inj_on H (set S)" using assms by (simp add: H_def)
  obtain ks_new ks_dup ks_miss where
    res: "filter_diff H S S =
       Inr (map (latest H S) ks_new, map (latest H S) ks_dup, map (latest H S) ks_miss)"
    and sn: "set ks_new = H ` set S - H ` set S"
    and dd: "distinct ks_dup" and sd: "set ks_dup = H ` set S \<inter> H ` set S"
    and sm: "set ks_miss = H ` set S - H ` set S"
    using filter_diff_result [of H S S] by (elim exE conjE)
  have n: "ks_new = []" and m: "ks_miss = []"
    using sn sm by simp_all
  let ?dup = "map (latest H S) ks_dup"
  have r: "filter_diff_nodes py_hash float_str S S = Inr ([], ?dup, [])"
    using res by (simp add: filter_diff_nodes_def H_def n m)
  have "set ?dup = latest H S ` H ` set S"
    using sd by simp
  also have "\<dots> = (\<lambda>n. latest H S (H n)) ` set S"
    by (simp add: image_image)
  also have "\<dots> = set S"
    using inj by (simp add: latest_inj)
  finally have s: "set ?dup = set S" .
  have "map H ?dup = ks_dup"
    by (rule map_hash_latest) (simp add: sd)
  then have "distinct (map H ?dup)" using dd by simp
  then have d: "distinct ?dup" by (rule distinct_map [THEN iffD1, THEN conjunct1])
  show ?thesis
    by (intro exI conjI) (rule r s d)+
qed

theorem reconcile_with_itself_witness:
  "inj_on (Node_hash example_hash example_float_str) (set [node_alpha, node_bravo])
   \<and> filter_diff_nodes example_hash example_float_str
        [node_alpha, node_bravo] [node_alpha, node_bravo]
       = Inr ([], [node_alpha, node_bravo], [])"
proof -
  have inj: "inj_on (Node_hash example_hash example_float_str) (set [node_alpha, node_bravo])"
    by (auto simp: inj_on_def example_hashes)
  have ev: "filter_diff_nodes example_hash example_float_str
        [node_alpha, node_bravo] [node_alpha, node_bravo]
       = Inr ([], [node_alpha, node_bravo], [])"
    by code_simp
  from reconcile_with_itself [OF inj] inj ev show ?thesis by simp
qed

text \<open>
  Claim C10.  When a fingerprint \<open>k\<close> occurs in both input lists, the unchanged list
  holds the last observed node with fingerprint \<open>k\<close>, every node with fingerprint \<open>k\<close>
  in any of the three output lists is that observed node, and every node of the
  unchanged list is a node of the observed list.  In the example the unchanged node
  carries the observed \<^verbatim>\<open>last_heard\<close>, which differs from the existing one.
\<close>

theorem unchanged_resolves_to_observed:
  assumes "k \<in> Node_hash py_hash float_str ` set existing"
    and "k \<in> Node_hash py_hash float_str ` set observed"
  shows "\<exists>new dup miss.
     filter_diff_nodes py_hash float_str existing observed = Inr (new, dup, miss)
     \<and> last (filter (\<lambda>n. Node_hash py_hash float_str n = k) observed) \<in> set dup
     \<and> (\<forall>n \<in> set new \<union> set dup \<union> set miss.
           Node_hash py_hash float_str n = k \<longrightarrow>
           n = last (filter (\<lambda>n. Node_hash py_hash float_str n = k) observed))
     \<and> set dup \<subseteq> set observed"
proof -
  define H where "H = Node_hash py_hash float_str"
  have kE: "k \<in> H ` set existing" and kO: "k \<in> H ` set observed"
    using assms by (simp_all add: H_def)
  obtain ks_new ks_dup ks_miss where
    res: "filter_diff H existing observed =
       Inr (map (latest H observed) ks_new, map (latest H observed) ks_dup,
            map (latest H existing) ks_miss)"
    and sn: "set ks_new = H ` set observed - H ` set existing"
    and sd: "set ks_dup = H ` set observed \<inter> H ` set existing"
    and sm: "set ks_miss = H ` set existing - H ` set observed"
    using filter_diff_result [of H existing observed] by (elim exE conjE)
  let ?new = "map (latest H observed) ks_new"
  let ?dup = "map (latest H observed) ks_dup"
  let ?miss = "map (latest H existing) ks_miss"
  have r: "filter_diff_nodes py_hash float_str existing observed = Inr (?new, ?dup, ?miss)"
    using res by (simp add: filter_diff_nodes_def H_def)
  have sub_n: "set ks_new \<subseteq> H ` set observed" and sub_d: "set ks_dup \<subseteq> H ` set observed"
    and sub_m: "set ks_miss \<subseteq> H ` set existing"
    using sn sd sm by auto
  have a: "latest H observed k \<in> set ?dup"
    using kE kO sd by simp
  have b: "n = latest H observed k" if "n \<in> set ?new \<union> set ?dup \<union> set ?miss" "H n = k" for n
  proof -
    from that(1) consider "n \<in> set ?new" | "n \<in> set ?dup" | "n \<in> set ?miss" by blast
    then show ?thesis
    proof cases
      case 1
      then show ?thesis using in_map_latest [OF 1 sub_n] that(2) by simp
    next
      case 2
      then show ?thesis using in_map_latest [OF 2 sub_d] that(2) by simp
    next
      case 3
      then have "H n \<in> set ks_miss" using in_map_latest [OF 3 sub_m] by simp
      with sm that(2) kO show ?thesis by simp
    qed
  qed
  have c: "set ?dup \<subseteq> set observed"
    using in_map_latest [OF _ sub_d] by blast
  have b': "\<forall>n \<in> set ?new \<union> set ?dup \<union> set ?miss. H n = k \<longrightarrow> n = latest H observed k"
    using b by blast
  show ?thesis
    unfolding H_def [symmetric] latest_def [symmetric]
    by (intro exI conjI) (rule r a b' c)+
qed

theorem unchanged_resolves_to_observed_witness:
  "1 \<in> Node_hash example_hash example_float_str ` set [node_alpha, node_bravo]
   \<and> 1 \<in> Node_hash example_hash example_float_str ` set [node_alpha_later]
   \<and> filter_diff_nodes example_hash example_float_str [node_alpha, node_bravo] [node_alpha_later]
       = Inr ([], [node_alpha_later], [node_bravo])
   \<and> last_heard node_alpha_later \<noteq> last_heard node_alpha"
proof -
  have h1: "1 \<in> Node_hash example_hash example_float_str ` set [node_alpha, node_bravo]"
    and h2: "1 \<in> Node_hash example_hash example_float_str ` set [node_alpha_later]"
    by (simp_all add: example_hashes)
  have ev: "filter_diff_nodes example_hash example_float_str [node_alpha, node_bravo] [node_alpha_later]
       = Inr ([], [node_alpha_later], [node_bravo])"
    by code_simp
  have ne: "last_heard node_alpha_later \<noteq> last_heard node_alpha"
    by (simp add: node_alpha_later_def node_alpha_def)
  from unchanged_resolves_to_observed [OF h1 h2] h1 h2 ev ne show ?thesis by simp
qed

text \<open>
  Claim C7 as stated fails.  The existing list holds \<^verbatim>\<open>Alpha\<close> and, under another
  public key with the same first four characters, a node named \<^verbatim>\<open>Alpha Hill\<close>; the
  observed list holds \<^verbatim>\<open>Alpha\<close> renamed to \<^verbatim>\<open>Alpha Hill\<close>.  The observed node has the
  public key of the existing \<^verbatim>\<open>Alpha\<close> and differs from it in name and in fingerprint,
  yet it is reported as unchanged, not as new: the fingerprint reads only the first
  four characters of the key, and the other existing node already carries it.
\<close>

theorem same_key_changed_name_counterexample:
  "node_alpha \<in> set [node_alpha, node_hill_other_key]
   \<and> node_alpha_renamed \<in> set [node_alpha_renamed]
   \<and> are_same_node node_alpha node_alpha_renamed
   \<and> \<not> are_same_node node_alpha node_hill_other_key
   \<and> name node_alpha \<noteq> name node_alpha_renamed
   \<and> Node_hash example_hash example_float_str node_alpha
       \<noteq> Node_hash example_hash example_float_str node_alpha_renamed
   \<and> filter_diff_nodes example_hash example_float_str
        [node_alpha, node_hill_other_key] [node_alpha_renamed]
       = Inr ([], [node_alpha_renamed], [node_alpha])"
proof -
  have "are_same_node node_alpha node_alpha_renamed"
    by (simp add: are_same_node_def node_alpha_renamed_def)
  moreover have "\<not> are_same_node node_alpha node_hill_other_key"
    by code_simp
  moreover have "name node_alpha \<noteq> name node_alpha_renamed"
    by (simp add: node_alpha_renamed_def node_alpha_def)
  moreover have "filter_diff_nodes example_hash example_float_str
        [node_alpha, node_hill_other_key] [node_alpha_renamed]
       = Inr ([], [node_alpha_renamed], [node_alpha])"
    by code_simp
  ultimately show ?thesis by (simp add: example_hashes)
qed

lemma fresh_fingerprints_new_and_missing:
  assumes "old_node \<in> set existing" and "new_node \<in> set observed"
    and "Node_hash py_hash float_str new_node \<notin> Node_hash py_hash float_str ` set existing"
    and "Node_hash py_hash float_str old_node \<notin> Node_hash py_hash float_str ` set observed"
  shows "\<exists>new dup miss.
     filter_diff_nodes py_hash float_str existing observed = Inr (new, dup, miss)
     \<and> last (filter (\<lambda>n. Node_hash py_hash float_str n = Node_hash py_hash float_str new_node) observed)
           \<in> set new
     \<and> last (filter (\<lambda>n. Node_hash py_hash float_str n = Node_hash py_hash float_str old_node) existing)
           \<in> set miss
     \<and> ((\<forall>n \<in> set observed. Node_hash py_hash float_str n = Node_hash py_hash float_str new_node
             \<longrightarrow> n = new_node) \<longrightarrow> new_node \<in> set new)
     \<and> ((\<forall>n \<in> set existing. Node_hash py_hash float_str n = Node_hash py_hash float_str old_node
             \<longrightarrow> n = old_node) \<longrightarrow> old_node \<in> set miss)
     \<and> Node_hash py_hash float_str new_node \<notin> Node_hash py_hash float_str ` (set dup \<union> set miss)
     \<and> Node_hash py_hash float_str old_node \<notin> Node_hash py_hash float_str ` (set dup \<union> set new)"
proof -
  define H where "H = Node_hash py_hash float_str"
  have nE: "H new_node \<notin> H ` set existing" and oO_: "H old_node \<notin> H ` set observed"
    using assms(3,4) by (simp_all add: H_def)
  have nO: "H new_node \<in> H ` set observed" and oE_: "H old_node \<in> H ` set existing"
    using assms(1,2) by simp_all
  obtain ks_new ks_dup ks_miss where
    res: "filter_diff H existing observed =
       Inr (map (latest H observed) ks_new, map (latest H observed) ks_dup,
            map (latest H existing) ks_miss)"
    and sn: "set ks_new = H ` set observed - H ` set existing"
    and sd: "set ks_dup = H ` set observed \<inter> H ` set existing"
    and sm: "set ks_miss = H ` set existing - H ` set observed"
    using filter_diff_result [of H existing observed] by (elim exE conjE)
  let ?new = "map (latest H observed) ks_new"
  let ?dup = "map (latest H observed) ks_dup"
  let ?miss = "map (latest H existing) ks_miss"
  have r: "filter_diff_nodes py_hash float_str existing observed = Inr (?new, ?dup, ?miss)"
    using res by (simp add: filter_diff_nodes_def H_def)
  have mn: "map H ?new = ks_new"
    by (rule map_hash_latest) (simp add: sn Diff_subset)
  have md: "map H ?dup = ks_dup"
    by (rule map_hash_latest) (simp add: sd)
  have mm: "map H ?miss = ks_miss"
    by (rule map_hash_latest) (simp add: sm Diff_subset)
  have a: "latest H observed (H new_node) \<in> set ?new"
    using nO nE sn by simp
  have b: "latest H existing (H old_node) \<in> set ?miss"
    using oE_ oO_ sm by simp
  have c: "(\<forall>n \<in> set observed. H n = H new_node \<longrightarrow> n = new_node) \<longrightarrow> new_node \<in> set ?new"
  proof
    assume "\<forall>n \<in> set observed. H n = H new_node \<longrightarrow> n = new_node"
    then have "latest H observed (H new_node) = new_node"
      using assms(2) by (intro latest_unique) blast+
    with a show "new_node \<in> set ?new" by simp
  qed
  have d: "(\<forall>n \<in> set existing. H n = H old_node \<longrightarrow> n = old_node) \<longrightarrow> old_node \<in> set ?miss"
  proof
    assume "\<forall>n \<in> set existing. H n = H old_node \<longrightarrow> n = old_node"
    then have "latest H existing (H old_node) = old_node"
      using assms(1) by (intro latest_unique) blast+
    with b show "old_node \<in> set ?miss" by simp
  qed
  have "H ` (set ?dup \<union> set ?miss) = set ks_dup \<union> set ks_miss"
    unfolding image_Un set_map [symmetric] md mm by (rule refl)
  then have f: "H new_node \<notin> H ` (set ?dup \<union> set ?miss)"
    using nE sd sm by simp
  have "H ` (set ?dup \<union> set ?new) = set ks_dup \<union> set ks_new"
    unfolding image_Un set_map [symmetric] md mn by (rule refl)
  then have g: "H old_node \<notin> H ` (set ?dup \<union> set ?new)"
    using oO_ sd sn by simp
  show ?thesis
    unfolding H_def [symmetric] latest_def [symmetric]
    by (intro exI conjI) (rule r a b c d f g)+
qed


lemma example_hash_inputs:
  "Node_hash_input example_float_str node_alpha = ''Alpha:AB12:1:39.7392:-104.9903:False''"
  "Node_hash_input example_float_str node_alpha_renamed
     = ''Alpha Hill:AB12:1:39.7392:-104.9903:False''"
  by code_simp+

text \<open>
  Claim C7, amended.  Let the existing list contain \<open>old_node\<close> and the observed list
  \<open>new_node\<close> with the same public key up to case and a different name, location or
  node type.  Then their fingerprint strings differ, and so do their fingerprints,
  provided the floats of the two nodes print without a colon, not as \<^verbatim>\<open>None\<close> and
  distinctly, and the built-in hash does not collide on the two strings.  If
  moreover no other existing node carries the fingerprint of \<open>new_node\<close> and no other
  observed node the fingerprint of \<open>old_node\<close>, then the \<open>new\<close> list holds the last
  observed node with the fingerprint of \<open>new_node\<close> (which is \<open>new_node\<close> when no other
  observed node shares its fingerprint), the \<open>missing\<close> list holds the last existing
  node with the fingerprint of \<open>old_node\<close> (which is \<open>old_node\<close> when no other existing
  node shares its fingerprint), and neither fingerprint occurs in any other output
  list.
\<close>

theorem changed_node_is_new_and_missing:
  assumes "old_node \<in> set existing" and "new_node \<in> set observed"
    and "are_same_node old_node new_node"
    and "name old_node \<noteq> name new_node \<or> latitude old_node \<noteq> latitude new_node
         \<or> longitude old_node \<noteq> longitude new_node \<or> node_type old_node \<noteq> node_type new_node"
    and "\<forall>v \<in> set_option (latitude old_node) \<union> set_option (longitude old_node)
                \<union> set_option (latitude new_node) \<union> set_option (longitude new_node).
           CHR '':'' \<notin> set (float_str v) \<and> float_str v \<noteq> ''None''"
    and "inj_on float_str (set_option (latitude old_node) \<union> set_option (longitude old_node)
                \<union> set_option (latitude new_node) \<union> set_option (longitude new_node))"
    and "inj_on py_hash {Node_hash_input float_str old_node, Node_hash_input float_str new_node}"
    and "\<forall>x \<in> set existing. x \<noteq> old_node \<longrightarrow>
           Node_hash py_hash float_str x \<noteq> Node_hash py_hash float_str new_node"
    and "\<forall>y \<in> set observed. y \<noteq> new_node \<longrightarrow>
           Node_hash py_hash float_str y \<noteq> Node_hash py_hash float_str old_node"
  shows "Node_hash_input float_str old_node \<noteq> Node_hash_input float_str new_node
     \<and> Node_hash py_hash float_str old_node \<noteq> Node_hash py_hash float_str new_node
     \<and> (\<exists>new dup miss.
     filter_diff_nodes py_hash float_str existing observed = Inr (new, dup, miss)
     \<and> last (filter (\<lambda>n. Node_hash py_hash float_str n = Node_hash py_hash float_str new_node) observed)
           \<in> set new
     \<and> last (filter (\<lambda>n. Node_hash py_hash float_str n = Node_hash py_hash float_str old_node) existing)
           \<in> set miss
     \<and> ((\<forall>n \<in> set observed. Node_hash py_hash float_str n = Node_hash py_hash float_str new_node
             \<longrightarrow> n = new_node) \<longrightarrow> new_node \<in> set new)
     \<and> ((\<forall>n \<in> set existing. Node_hash py_hash float_str n = Node_hash py_hash float_str old_node
             \<longrightarrow> n = old_node) \<longrightarrow> old_node \<in> set miss)
     \<and> Node_hash py_hash float_str new_node \<notin> Node_hash py_hash float_str ` (set dup \<union> set miss)
     \<and> Node_hash py_hash float_str old_node \<notin> Node_hash py_hash float_str ` (set dup \<union> set new))"
proof -
  have strings: "Node_hash_input float_str old_node \<noteq> Node_hash_input float_str new_node"
  proof
    assume "Node_hash_input float_str old_node = Node_hash_input float_str new_node"
    with assms(3,5,6) have "name old_node = name new_node \<and> node_type old_node = node_type new_node
        \<and> latitude old_node = latitude new_node \<and> longitude old_node = longitude new_node
        \<and> is_observer old_node = is_observer new_node"
      by (intro hash_input_fields)
    with assms(4) show False by blast
  qed
  have hashes: "Node_hash py_hash float_str old_node \<noteq> Node_hash py_hash float_str new_node"
  proof
    assume "Node_hash py_hash float_str old_node = Node_hash py_hash float_str new_node"
    then have "py_hash (Node_hash_input float_str old_node)
        = py_hash (Node_hash_input float_str new_node)"
      by (simp add: Node_hash_def)
    with assms(7) have "Node_hash_input float_str old_node = Node_hash_input float_str new_node"
      by (auto dest: inj_onD)
    with strings show False by simp
  qed
  have fresh_new: "Node_hash py_hash float_str new_node
      \<notin> Node_hash py_hash float_str ` set existing"
  proof
    assume "Node_hash py_hash float_str new_node \<in> Node_hash py_hash float_str ` set existing"
    then obtain x where x: "x \<in> set existing"
      "Node_hash py_hash float_str x = Node_hash py_hash float_str new_node" by auto
    with assms(8) have "x = old_node" by blast
    with x(2) hashes show False by simp
  qed
  have fresh_old: "Node_hash py_hash float_str old_node
      \<notin> Node_hash py_hash float_str ` set observed"
  proof
    assume "Node_hash py_hash float_str old_node \<in> Node_hash py_hash float_str ` set observed"
    then obtain y where y: "y \<in> set observed"
      "Node_hash py_hash float_str y = Node_hash py_hash float_str old_node" by auto
    with assms(9) have "y = new_node" by blast
    with y(2) hashes show False by simp
  qed
  from strings hashes
    fresh_fingerprints_new_and_missing [OF assms(1) assms(2) fresh_new fresh_old]
  show ?thesis by (intro conjI)
qed

theorem changed_node_is_new_and_missing_witness:
  "node_alpha \<in> set [node_alpha, node_bravo]
   \<and> node_alpha_renamed \<in> set [node_bravo, node_alpha_renamed]
   \<and> are_same_node node_alpha node_alpha_renamed
   \<and> name node_alpha \<noteq> name node_alpha_renamed
   \<and> latitude node_alpha = Some ''39.7392'' \<and> longitude node_alpha = Some ''-104.9903''
   \<and> latitude node_alpha_renamed = Some ''39.7392''
   \<and> longitude node_alpha_renamed = Some ''-104.9903''
   \<and> example_float_str ''39.7392'' = ''39.7392''
   \<and> example_float_str ''-104.9903'' = ''-104.9903''
   \<and> Node_hash_input example_float_str node_alpha = ''Alpha:AB12:1:39.7392:-104.9903:False''
   \<and> Node_hash_input example_float_str node_alpha_renamed
       = ''Alpha Hill:AB12:1:39.7392:-104.9903:False''
   \<and> Node_hash example_hash example_float_str node_alpha = 1
   \<and> Node_hash example_hash example_float_str node_alpha_renamed = 2
   \<and> Node_hash example_hash example_float_str node_bravo = 3
   \<and> filter_diff_nodes example_hash example_float_str
        [node_alpha, node_bravo] [node_bravo, node_alpha_renamed]
       = Inr ([node_alpha_renamed], [node_bravo], [node_alpha])"
proof -
  have a: "node_alpha \<in> set [node_alpha, node_bravo]"
    and b: "node_alpha_renamed \<in> set [node_bravo, node_alpha_renamed]"
    by simp_all
  have c: "are_same_node node_alpha node_alpha_renamed"
    by (simp add: are_same_node_def node_alpha_renamed_def)
  have n: "name node_alpha \<noteq> name node_alpha_renamed"
    by (simp add: node_alpha_renamed_def node_alpha_def)
  have d: "name node_alpha \<noteq> name node_alpha_renamed
         \<or> latitude node_alpha \<noteq> latitude node_alpha_renamed
         \<or> longitude node_alpha \<noteq> longitude node_alpha_renamed
         \<or> node_type node_alpha \<noteq> node_type node_alpha_renamed"
    using n by simp
  have fl: "latitude node_alpha = Some ''39.7392''" "longitude node_alpha = Some ''-104.9903''"
    "latitude node_alpha_renamed = Some ''39.7392''"
    "longitude node_alpha_renamed = Some ''-104.9903''"
    by (simp_all add: node_alpha_renamed_def node_alpha_def)
  have pr: "example_float_str ''39.7392'' = ''39.7392''"
    "example_float_str ''-104.9903'' = ''-104.9903''"
    by (simp_all add: example_float_str_def)
  have e: "\<forall>v \<in> set_option (latitude node_alpha) \<union> set_option (longitude node_alpha)
                \<union> set_option (latitude node_alpha_renamed)
                \<union> set_option (longitude node_alpha_renamed).
           CHR '':'' \<notin> set (example_float_str v) \<and> example_float_str v \<noteq> ''None''"
    by (simp add: fl pr)
  have f: "inj_on example_float_str
        (set_option (latitude node_alpha) \<union> set_option (longitude node_alpha)
          \<union> set_option (latitude node_alpha_renamed) \<union> set_option (longitude node_alpha_renamed))"
    by (simp add: inj_on_def example_float_str_def)
  have g: "inj_on example_hash {Node_hash_input example_float_str node_alpha,
        Node_hash_input example_float_str node_alpha_renamed}"
    by (simp add: example_hash_inputs example_hash_def)
  have h: "\<forall>x \<in> set [node_alpha, node_bravo]. x \<noteq> node_alpha \<longrightarrow>
           Node_hash example_hash example_float_str x
             \<noteq> Node_hash example_hash example_float_str node_alpha_renamed"
    by (simp add: example_hashes)
  have i: "\<forall>y \<in> set [node_bravo, node_alpha_renamed]. y \<noteq> node_alpha_renamed \<longrightarrow>
           Node_hash example_hash example_float_str y
             \<noteq> Node_hash example_hash example_float_str node_alpha"
    by (simp add: example_hashes)
  have ev: "filter_diff_nodes example_hash example_float_str
        [node_alpha, node_bravo] [node_bravo, node_alpha_renamed]
       = Inr ([node_alpha_renamed], [node_bravo], [node_alpha])"
    by code_simp
  from changed_node_is_new_and_missing [OF a b c d e f g h i]
    a b c n fl pr example_hash_inputs example_hashes(1,2,4) ev
  show ?thesis by simp
qed


subsection \<open>The snapshot store policy\<close>

lemma filter_diff_nodes_empty_iff:
  assumes "filter_diff_nodes py_hash float_str existing observed = Inr (new, dup, miss)"
  shows "new = [] \<and> miss = [] \<longleftrightarrow>
     Node_hash py_hash float_str ` set existing = Node_hash py_hash float_str ` set observed"
proof -
  define H where "H = Node_hash py_hash float_str"
  obtain ks_new ks_dup ks_miss where
    res: "filter_diff H existing observed =
       Inr (map (latest H observed) ks_new, map (latest H observed) ks_dup,
            map (latest H existing) ks_miss)"
    and sn: "set ks_new = H ` set observed - H ` set existing"
    and sm: "set ks_miss = H ` set existing - H ` set observed"
    using filter_diff_result [of H existing observed] by (elim exE conjE)
  from res assms have "new = map (latest H observed) ks_new" "miss = map (latest H existing) ks_miss"
    by (simp_all add: filter_diff_nodes_def H_def)
  then have "new = [] \<and> miss = [] \<longleftrightarrow> set ks_new = {} \<and> set ks_miss = {}"
    by simp
  also have "\<dots> \<longleftrightarrow> H ` set existing = H ` set observed"
    unfolding sn sm by blast
  finally show ?thesis unfolding H_def .
qed

lemma append_nodes_to_json:
  "(\<And>n. n \<in> set ns \<Longrightarrow> Node_validate (to_json n) = Inr n)
   \<Longrightarrow> append_nodes Node_validate (map to_json ns) acc = Inr (acc @ ns)"
  by (induction ns arbitrary: acc) simp_all

lemma NodeType_value_inj: "NodeType_value a = NodeType_value b \<Longrightarrow> a = b"
  by (cases a; cases b) simp_all

lemma json_optional_float_inj: "json_optional_float a = json_optional_float b \<Longrightarrow> a = b"
  by (cases a; cases b) (simp_all add: json_optional_float_def)

lemma json_optional_str_inj:
  "(json_optional_str a :: 'f json) = json_optional_str b \<Longrightarrow> a = b"
  by (cases a; cases b) (simp_all add: json_optional_str_def)

lemma to_json_inj:
  assumes "to_json a = to_json b"
  shows "a = b"
proof -
  from assms have "public_key a = public_key b" "name a = name b"
    "latitude a = latitude b" "longitude a = longitude b" "node_type a = node_type b"
    "is_observer a = is_observer b" "contact a = contact b" "created_at a = created_at b"
    "last_heard a = last_heard b"
    by (auto simp: to_json_def dest: NodeType_value_inj json_optional_float_inj
          json_optional_str_inj)
  then show ?thesis by simp
qed

lemma map_to_json_inj: "map to_json xs = map to_json ys \<Longrightarrow> xs = ys"
  using to_json_inj by (metis inj_onI inj_on_map_eq_map subset_UNIV inj_on_subset)

lemma example_read:
  "read_nodes_from_file example_json_load example_Node_validate example_storage ''repeaters.json''
     = Inr [node_alpha]"
  by code_simp

text \<open>
  Claim C4.  Let the snapshot at a path load as \<open>existing\<close> and let reconciliation
  against the observed list return \<open>new\<close>, \<open>dup\<close>, \<open>miss\<close>.  Then \<open>new\<close> and \<open>miss\<close> are
  both empty exactly when the two lists have the same set of fingerprints, and in
  that case both sync functions return the file system as it was: nothing is
  written.  In the example the observed node differs from the stored one in
  \<^verbatim>\<open>last_heard\<close>.
\<close>

theorem sync_without_changes_writes_nothing:
  assumes "read_nodes_from_file json_load Node_validate fs path = Inr existing"
    and "filter_diff_nodes py_hash float_str existing observed = Inr (new, dup, miss)"
  shows "(new = [] \<and> miss = [] \<longleftrightarrow>
            Node_hash py_hash float_str ` set existing = Node_hash py_hash float_str ` set observed)
     \<and> (new = [] \<and> miss = [] \<longrightarrow>
            sync_repeaters py_hash float_str json_load json_dumps Node_validate fs path observed
              = Inr fs
          \<and> sync_companions py_hash float_str json_load json_dumps Node_validate fs path observed
              = Inr fs)"
proof -
  have "sync_repeaters py_hash float_str json_load json_dumps Node_validate fs path observed
              = Inr fs" if "new = []" "miss = []"
    using assms that by (simp add: sync_repeaters_def)
  moreover have "sync_companions py_hash float_str json_load json_dumps Node_validate fs path observed
              = Inr fs" if "new = []" "miss = []"
    using assms that by (simp add: sync_companions_def)
  ultimately show ?thesis
    using filter_diff_nodes_empty_iff [OF assms(2)] by blast
qed

theorem sync_without_changes_writes_nothing_witness:
  "read_nodes_from_file example_json_load example_Node_validate example_storage ''repeaters.json''
     = Inr [node_alpha]
   \<and> filter_diff_nodes example_hash example_float_str [node_alpha] [node_alpha_later]
     = Inr ([], [node_alpha_later], [])
   \<and> sync_repeaters example_hash example_float_str example_json_load example_json_dumps
        example_Node_validate example_storage ''repeaters.json'' [node_alpha_later]
     = Inr example_storage
   \<and> sync_companions example_hash example_float_str example_json_load example_json_dumps
        example_Node_validate example_storage ''repeaters.json'' [node_alpha_later]
     = Inr example_storage
   \<and> node_alpha_later \<noteq> node_alpha"
proof -
  have rd: "read_nodes_from_file example_json_load example_Node_validate example_storage
      ''repeaters.json'' = Inr [node_alpha]"
    by (rule example_read)
  have df: "filter_diff_nodes example_hash example_float_str [node_alpha] [node_alpha_later]
     = Inr ([], [node_alpha_later], [])"
    by code_simp
  have ne: "node_alpha_later \<noteq> node_alpha"
    by (simp add: node_alpha_later_def node_alpha_def)
  from sync_without_changes_writes_nothing [OF rd df, of example_json_dumps] rd df ne
  show ?thesis by simp
qed

text \<open>
  Claim C5.  Let the snapshot at a path load as \<open>existing\<close> and let reconciliation
  against the observed list return a non-empty \<open>new\<close> or a non-empty \<open>miss\<close>.  Then
  both sync functions replace the file at that path by \<^verbatim>\<open>json.dumps\<close> of the array of
  \<^verbatim>\<open>to_json\<close> of the observed nodes, in order, and leave every other path alone.  That
  array determines the observed list, and loading the file again gives the observed
  list whenever \<^verbatim>\<open>json.load\<close> reads back what \<^verbatim>\<open>json.dumps\<close> wrote and the constructor
  reads back what \<^verbatim>\<open>to_json\<close> wrote.
\<close>

theorem sync_with_changes_writes_observed:
  assumes "read_nodes_from_file json_load Node_validate fs path = Inr existing"
    and "filter_diff_nodes py_hash float_str existing observed = Inr (new, dup, miss)"
    and "new \<noteq> [] \<or> miss \<noteq> []"
  shows "sync_repeaters py_hash float_str json_load json_dumps Node_validate fs path observed
           = Inr (fs(path \<mapsto> json_dumps (JArray (map to_json observed))))
     \<and> sync_companions py_hash float_str json_load json_dumps Node_validate fs path observed
           = Inr (fs(path \<mapsto> json_dumps (JArray (map to_json observed))))
     \<and> (\<forall>other. map to_json other = map to_json observed \<longrightarrow> other = observed)
     \<and> (json_load (json_dumps (JArray (map to_json observed)))
           = Inr (JArray (map to_json observed))
          \<and> (\<forall>n \<in> set observed. Node_validate (to_json n) = Inr n)
         \<longrightarrow> read_nodes_from_file json_load Node_validate
               (fs(path \<mapsto> json_dumps (JArray (map to_json observed)))) path
             = Inr observed)"
proof -
  have a: "sync_repeaters py_hash float_str json_load json_dumps Node_validate fs path observed
           = Inr (fs(path \<mapsto> json_dumps (JArray (map to_json observed))))"
    using assms by (simp add: sync_repeaters_def)
  have b: "sync_companions py_hash float_str json_load json_dumps Node_validate fs path observed
           = Inr (fs(path \<mapsto> json_dumps (JArray (map to_json observed))))"
    using assms by (simp add: sync_companions_def)
  have c: "\<forall>other. map to_json other = map to_json observed \<longrightarrow> other = observed"
    using map_to_json_inj by blast
  have d: "json_load (json_dumps (JArray (map to_json observed)))
           = Inr (JArray (map to_json observed))
          \<and> (\<forall>n \<in> set observed. Node_validate (to_json n) = Inr n)
         \<longrightarrow> read_nodes_from_file json_load Node_validate
               (fs(path \<mapsto> json_dumps (JArray (map to_json observed)))) path
             = Inr observed"
    by (simp add: read_nodes_from_file_def append_nodes_to_json)
  from a b c d show ?thesis by (intro conjI)
qed

theorem sync_with_changes_writes_observed_witness:
  "read_nodes_from_file example_json_load example_Node_validate example_storage ''repeaters.json''
     = Inr [node_alpha]
   \<and> filter_diff_nodes example_hash example_float_str [node_alpha] [node_alpha_renamed, node_bravo]
     = Inr ([node_alpha_renamed, node_bravo], [], [node_alpha])
   \<and> [node_alpha_renamed, node_bravo] \<noteq> []
   \<and> sync_repeaters example_hash example_float_str example_json_load example_json_dumps
        example_Node_validate example_storage ''repeaters.json'' [node_alpha_renamed, node_bravo]
     = Inr (example_storage(''repeaters.json'' \<mapsto> ''[alpha hill, bravo]''))
   \<and> example_json_load ''[alpha hill, bravo]''
     = Inr (JArray (map to_json [node_alpha_renamed, node_bravo]))
   \<and> example_Node_validate (to_json node_alpha_renamed) = Inr node_alpha_renamed
   \<and> example_Node_validate (to_json node_bravo) = Inr node_bravo
   \<and> read_nodes_from_file example_json_load example_Node_validate
        (example_storage(''repeaters.json'' \<mapsto> ''[alpha hill, bravo]'')) ''repeaters.json''
     = Inr [node_alpha_renamed, node_bravo]"
proof -
  have rd: "read_nodes_from_file example_json_load example_Node_validate example_storage
      ''repeaters.json'' = Inr [node_alpha]"
    by (rule example_read)
  have df: "filter_diff_nodes example_hash example_float_str [node_alpha]
      [node_alpha_renamed, node_bravo]
     = Inr ([node_alpha_renamed, node_bravo], [], [node_alpha])"
    by code_simp
  have ne: "[node_alpha_renamed, node_bravo] \<noteq> [] \<or> [node_alpha] \<noteq> []"
    by simp
  have dm: "example_json_dumps (JArray (map to_json [node_alpha_renamed, node_bravo]))
      = ''[alpha hill, bravo]''"
    by code_simp
  have ld: "example_json_load ''[alpha hill, bravo]''
     = Inr (JArray (map to_json [node_alpha_renamed, node_bravo]))"
    by code_simp
  have v1: "example_Node_validate (to_json node_alpha_renamed) = Inr node_alpha_renamed"
    and v2: "example_Node_validate (to_json node_bravo) = Inr node_bravo"
    by code_simp+
  from sync_with_changes_writes_observed [OF rd df ne, of example_json_dumps]
    rd df dm ld v1 v2
  show ?thesis by simp
qed

subsection \<open>Device-type inference\<close>

text \<open>
  Claim C2, evaluated.  The repeater has \<^verbatim>\<open>hex_id\<close> \<^verbatim>\<open>AB12\<close>.  With one item of Provider B
  typed Room (role 3) whose public key \<^verbatim>\<open>AB12CD34EF56\<close> begins with \<^verbatim>\<open>AB12\<close>, the
  scenario of the claim, the node comes out a Repeater, not a RoomServer: the keys
  are compared whole.  With two items of key \<^verbatim>\<open>AB12\<close> up to case, the first typed
  Repeater and the second typed Room, the node comes out a Repeater although an item
  with the same key typed Room exists: the first item with that key decides.  With
  the single item of key \<^verbatim>\<open>ab12\<close> typed Room the node is a RoomServer.
\<close>

theorem room_inference_on_scenario:
  "mm_hex_id example_repeater = ''AB12''
   \<and> take 4 (rec_public_key example_room_long_key) = ''AB12''
   \<and> rec_device_role example_room_long_key = 3
   \<and> get_den_repeaters example_quote 4300 [example_repeater] [example_room_long_key]
       = Inr [example_repeater_node REPEATER]
   \<and> upper (rec_public_key example_room) = upper (mm_hex_id example_repeater)
   \<and> rec_device_role example_room = 3
   \<and> get_den_repeaters example_quote 4300 [example_repeater]
        [example_same_key_repeater, example_room]
       = Inr [example_repeater_node REPEATER]
   \<and> get_den_repeaters example_quote 4300 [example_repeater] [example_room]
       = Inr [example_repeater_node ROOM_SERVER]"
  by code_simp


subsection \<open>Timestamps\<close>

text \<open>
  Claim C3.  On a host whose time zone is UTC the string
  \<^verbatim>\<open>2026-02-18T01:19:00.379Z\<close> gives 1771377540, the Unix time of that instant.  On a
  host seven hours west of UTC it gives 1771402740, and in general the result is off
  by the offset of the host's zone, since \<^verbatim>\<open>time.mktime\<close> reads the parsed time as
  local time.  The strings \<^verbatim>\<open>not-a-date\<close> and the empty string give 0 in every zone.
\<close>

theorem iso8601_timestamp_is_local_time:
  "iso8601_to_unix_timestamp (\<lambda>t. 0) ''2026-02-18T01:19:00.379Z'' = 1771377540
   \<and> iso8601_to_unix_timestamp (\<lambda>t. - 25200) ''2026-02-18T01:19:00.379Z'' = 1771402740
   \<and> iso8601_to_unix_timestamp utcoffset ''2026-02-18T01:19:00.379Z''
       = 1771377540 - utcoffset \<lparr>tm_year = 2026, tm_mon = 2, tm_mday = 18,
                                  tm_hour = 1, tm_min = 19, tm_sec = 0\<rparr>
   \<and> iso8601_to_unix_timestamp utcoffset ''not-a-date'' = 0
   \<and> iso8601_to_unix_timestamp utcoffset [] = 0"
proof -
  have parsed: "strptime_iso ''2026-02-18T01:19:00.379Z''
      = Inr \<lparr>tm_year = 2026, tm_mon = 2, tm_mday = 18, tm_hour = 1, tm_min = 19, tm_sec = 0\<rparr>"
    by code_simp
  have utc: "timegm \<lparr>tm_year = 2026, tm_mon = 2, tm_mday = 18,
                     tm_hour = 1, tm_min = 19, tm_sec = 0\<rparr> = 1771377540"
    by code_simp
  have any_zone: "iso8601_to_unix_timestamp utcoffset ''2026-02-18T01:19:00.379Z''
       = 1771377540 - utcoffset \<lparr>tm_year = 2026, tm_mon = 2, tm_mday = 18,
                                  tm_hour = 1, tm_min = 19, tm_sec = 0\<rparr>"
    for utcoffset
    by (simp add: iso8601_to_unix_timestamp_def parsed mktime_def utc)
  have a: "iso8601_to_unix_timestamp (\<lambda>t. 0) ''2026-02-18T01:19:00.379Z'' = 1771377540"
    by (simp add: any_zone)
  have b: "iso8601_to_unix_timestamp (\<lambda>t. - 25200) ''2026-02-18T01:19:00.379Z'' = 1771402740"
    by (simp add: any_zone)
  have "strptime_iso ''not-a-date'' = Inl (ValueError ''time data does not match format'')"
    by code_simp
  then have c: "iso8601_to_unix_timestamp utcoffset ''not-a-date'' = 0"
    by (simp add: iso8601_to_unix_timestamp_def)
  have d: "iso8601_to_unix_timestamp utcoffset [] = 0"
    by (simp add: iso8601_to_unix_timestamp_def)
  from a b any_zone c d show ?thesis by (intro conjI)
qed

end
